theory Spec2Isabelle
  imports Complex_Main "HOL-Library.AList"
begin

section \<open>Python values and exceptions\<close>

text \<open>
  The exceptions that \<^verbatim>\<open>astroprobe.py\<close> can meet. \<open>OSError\<close> stands for the whole
  family raised by the operating system (\<^verbatim>\<open>FileNotFoundError\<close>, \<^verbatim>\<open>PermissionError\<close>,
  \<^verbatim>\<open>IsADirectoryError\<close>, \<^verbatim>\<open>IOError\<close> ...): the source only ever catches it as a family.
\<close>

datatype error =
    AttributeError | ValueError | KeyError | TypeError | IndexError
  | OverflowError | ZeroDivisionError | OSError

text \<open>
  A Python \<^verbatim>\<open>float\<close> is an IEEE-754 binary64 number. A finite one is represented by the
  rational it denotes; the sign of zero is not represented.
\<close>

datatype pyfloat = Fin rat | PosInf | NegInf | NaN

text \<open>
  The values that flow through the program: header scalars, the pieces of a result
  record, and the record itself. A \<^verbatim>\<open>dict\<close> with string keys is an association list in
  insertion order: \<open>map_of\<close> reads it, \<open>AList.update\<close> is \<^verbatim>\<open>d[k] = v\<close> (an existing key
  keeps its place, a new one goes to the end).
\<close>

datatype pyval =
    PNone
  | PBool bool
  | PInt int
  | PFloat pyfloat
  | PStr string
  | PList "pyval list"
  | PDict "(string \<times> pyval) list"

type_synonym dict = "(string \<times> pyval) list"

text \<open>Truth value of an object, as \<^verbatim>\<open>if x\<close> and \<^verbatim>\<open>x or y\<close> test it.\<close>

fun truthy :: "pyval \<Rightarrow> bool" where
  "truthy PNone = False"
| "truthy (PBool b) = b"
| "truthy (PInt n) = (n \<noteq> 0)"
| "truthy (PFloat x) = (x \<noteq> Fin 0)"
| "truthy (PStr s) = (s \<noteq> [])"
| "truthy (PList xs) = (xs \<noteq> [])"
| "truthy (PDict d) = (d \<noteq> [])"

text \<open>\<^verbatim>\<open>d.update(other)\<close>: the items of \<open>other\<close> are stored one by one.\<close>

definition dict_update :: "dict \<Rightarrow> dict \<Rightarrow> dict" where
  "dict_update d other = fold (\<lambda>(k, v) acc. AList.update k v acc) other d"

text \<open>Sequencing of fallible steps: the first exception raised ends the computation.\<close>

definition bindE :: "error + 'a \<Rightarrow> ('a \<Rightarrow> error + 'b) \<Rightarrow> error + 'b" where
  "bindE m f = (case m of Inl e \<Rightarrow> Inl e | Inr x \<Rightarrow> f x)"

section \<open>Binary64 arithmetic\<close>

text \<open>
  Round-half-even to an integer, the number of binary digits of a natural number, and
  the binary exponent \<open>\<lfloor>log\<^sub>2 x\<rfloor>\<close> of a positive rational.
\<close>

definition rhe :: "rat \<Rightarrow> int" where
  "rhe x =
     (let f = \<lfloor>x\<rfloor>; d = x - of_int f
      in if d < 1 / 2 then f
         else if 1 / 2 < d then f + 1
         else if even f then f else f + 1)"

fun bits :: "nat \<Rightarrow> nat" where
  "bits n = (if n = 0 then 0 else Suc (bits (n div 2)))"

declare bits.simps [simp del]

definition pow2 :: "int \<Rightarrow> rat" where
  "pow2 e = (if 0 \<le> e then 2 ^ nat e else 1 / 2 ^ nat (- e))"

definition ilog2 :: "rat \<Rightarrow> int" where
  "ilog2 x =
     (if 1 \<le> x then int (bits (nat \<lfloor>x\<rfloor>)) - 1
      else - int (bits (nat (\<lceil>1 / x\<rceil> - 1))))"

text \<open>
  The binary64 number nearest to a rational (ties to even): 53 significant bits, the
  exponent not below that of the subnormals, and an infinity once the rounded magnitude
  reaches \<open>2\<^sup>1\<^sup>0\<^sup>2\<^sup>4\<close>.
\<close>

definition dbl_exp :: "rat \<Rightarrow> int" where
  "dbl_exp a = max (ilog2 a) (- 1022)"

definition dbl_mag :: "rat \<Rightarrow> rat" where
  "dbl_mag a = of_int (rhe (a / pow2 (dbl_exp a - 52))) * pow2 (dbl_exp a - 52)"

definition to_double :: "rat \<Rightarrow> pyfloat" where
  "to_double x =
     (if x = 0 then Fin 0
      else if pow2 1024 \<le> dbl_mag \<bar>x\<bar> then (if 0 < x then PosInf else NegInf)
      else Fin (if 0 < x then dbl_mag \<bar>x\<bar> else - dbl_mag \<bar>x\<bar>))"

fun fl_neg :: "pyfloat \<Rightarrow> pyfloat" where
  "fl_neg (Fin a) = Fin (- a)"
| "fl_neg PosInf = NegInf"
| "fl_neg NegInf = PosInf"
| "fl_neg NaN = NaN"

fun fl_add :: "pyfloat \<Rightarrow> pyfloat \<Rightarrow> pyfloat" where
  "fl_add (Fin a) (Fin b) = to_double (a + b)"
| "fl_add NaN _ = NaN"
| "fl_add _ NaN = NaN"
| "fl_add PosInf NegInf = NaN"
| "fl_add NegInf PosInf = NaN"
| "fl_add PosInf _ = PosInf"
| "fl_add NegInf _ = NegInf"
| "fl_add _ PosInf = PosInf"
| "fl_add _ NegInf = NegInf"

definition fl_sub :: "pyfloat \<Rightarrow> pyfloat \<Rightarrow> pyfloat" where
  "fl_sub x y = fl_add x (fl_neg y)"

text \<open>The sign of a float as \<open>-1\<close>, \<open>0\<close> or \<open>1\<close>; \<open>None\<close> for a NaN.\<close>

fun fl_sign :: "pyfloat \<Rightarrow> int option" where
  "fl_sign (Fin a) = Some (if a < 0 then - 1 else if a = 0 then 0 else 1)"
| "fl_sign PosInf = Some 1"
| "fl_sign NegInf = Some (- 1)"
| "fl_sign NaN = None"

definition signed_inf :: "int \<Rightarrow> pyfloat" where
  "signed_inf s = (if s < 0 then NegInf else PosInf)"

fun fl_mul :: "pyfloat \<Rightarrow> pyfloat \<Rightarrow> pyfloat" where
  "fl_mul (Fin a) (Fin b) = to_double (a * b)"
| "fl_mul x y =
     (case (fl_sign x, fl_sign y) of
        (Some s, Some t) \<Rightarrow> if s * t = 0 then NaN else signed_inf (s * t)
      | _ \<Rightarrow> NaN)"

text \<open>Division by a divisor that is not zero (the caller raises on zero).\<close>

fun fl_div :: "pyfloat \<Rightarrow> pyfloat \<Rightarrow> pyfloat" where
  "fl_div (Fin a) (Fin b) = to_double (a / b)"
| "fl_div NaN _ = NaN"
| "fl_div _ NaN = NaN"
| "fl_div (Fin a) _ = Fin 0"
| "fl_div x (Fin b) = (case fl_sign x of Some s \<Rightarrow> signed_inf (if b < 0 then - s else s) | None \<Rightarrow> NaN)"
| "fl_div _ _ = NaN"

text \<open>
  \<^verbatim>\<open>float(n)\<close> for an integer: the nearest binary64 number, \<^verbatim>\<open>OverflowError\<close> when
  the integer is too large.
\<close>

definition float_of_int :: "int \<Rightarrow> error + pyfloat" where
  "float_of_int n =
     (case to_double (of_int n) of
        Fin r \<Rightarrow> Inr (Fin r)
      | _ \<Rightarrow> Inl OverflowError)"

text \<open>
  \<^verbatim>\<open>round(x, n)\<close> on a float: the value is written with \<open>n\<close> decimals, correctly
  rounded (ties to even), and read back; infinities and NaN round to themselves.
\<close>

definition fl_round :: "pyfloat \<Rightarrow> nat \<Rightarrow> error + pyfloat" where
  "fl_round x n =
     (case x of
        Fin a \<Rightarrow>
          (case to_double (of_int (rhe (a * 10 ^ n)) / 10 ^ n) of
             Fin r \<Rightarrow> Inr (Fin r)
           | _ \<Rightarrow> Inl OverflowError)
      | _ \<Rightarrow> Inr x)"

section \<open>Text: digits, numbers, substrings\<close>

definition digit :: "char \<Rightarrow> bool" where
  "digit c = (c \<in> set ''0123456789'')"

definition nat_of_digits :: "string \<Rightarrow> nat" where
  "nat_of_digits s = foldl (\<lambda>n c. 10 * n + (of_char c - 48)) 0 s"

text \<open>
  \<^verbatim>\<open>int(s)\<close> on a string of ASCII digits (what \<^verbatim>\<open>(\d+)\<close> captures here). The
  interpreter refuses a decimal string of more than 4300 digits with a \<^verbatim>\<open>ValueError\<close>:
  that is its default limit on the conversion, and the program never changes it.
\<close>

definition max_str_digits :: nat where
  "max_str_digits = 4300"

definition py_int :: "string \<Rightarrow> error + int" where
  "py_int s =
     (if s \<noteq> [] \<and> list_all digit s \<and> length s \<le> max_str_digits
      then Inr (int (nat_of_digits s))
      else Inl ValueError)"

text \<open>
  \<^verbatim>\<open>float(s)\<close> on a string over the characters \<^verbatim>\<open>0-9\<close>, \<^verbatim>\<open>.\<close> and \<^verbatim>\<open>-\<close>, the only ones
  the patterns of \<^verbatim>\<open>parse_buf\<close> capture: an optional leading minus, digits with at most
  one point and at least one digit; anything else is a \<^verbatim>\<open>ValueError\<close>. The value is the
  nearest binary64 number (an infinity when it is too large).
\<close>

definition unsigned_float :: "string \<Rightarrow> rat option" where
  "unsigned_float t =
     (case dropWhile digit t of
        [] \<Rightarrow> if t = [] then None else Some (of_nat (nat_of_digits t))
      | c # fp \<Rightarrow>
          if c = CHR ''.'' \<and> list_all digit fp \<and> (takeWhile digit t \<noteq> [] \<or> fp \<noteq> [])
          then Some (of_nat (nat_of_digits (takeWhile digit t))
                     + of_nat (nat_of_digits fp) / 10 ^ length fp)
          else None)"

definition py_float :: "string \<Rightarrow> error + pyfloat" where
  "py_float s =
     (case s of
        [] \<Rightarrow> Inl ValueError
      | c # r \<Rightarrow>
          if c = CHR ''-''
          then (case unsigned_float r of None \<Rightarrow> Inl ValueError | Some q \<Rightarrow> Inr (to_double (- q)))
          else (case unsigned_float s of None \<Rightarrow> Inl ValueError | Some q \<Rightarrow> Inr (to_double q)))"

text \<open>\<^verbatim>\<open>[float(x) for x in xs]\<close>: the first string that fails raises.\<close>

fun floats :: "string list \<Rightarrow> error + pyval list" where
  "floats [] = Inr []"
| "floats (x # xs) =
     bindE (py_float x) (\<lambda>v. bindE (floats xs) (\<lambda>vs. Inr (PFloat v # vs)))"

text \<open>\<^verbatim>\<open>sub in s\<close> on strings.\<close>

fun contains :: "string \<Rightarrow> string \<Rightarrow> bool" where
  "contains sub [] = (sub = [])"
| "contains sub (c # s) = (take (length sub) (c # s) = sub \<or> contains sub s)"

section \<open>Regular expressions\<close>

text \<open>
  The patterns of the program are sequences of single characters, character classes,
  greedy \<^verbatim>\<open>+\<close> and \<^verbatim>\<open>*\<close> over one class, and groups that are not nested. A character is
  a code point below 256; \<^verbatim>\<open>.\<close> is anything but a newline, \<^verbatim>\<open>\d\<close> a decimal digit,
  \<^verbatim>\<open>\S\<close> anything but white space.
\<close>

datatype cls = Lit char | OneOf string | Dot | Digit | NonSpace

definition space :: "char \<Rightarrow> bool" where
  "space c = (c \<in> set [CHR 0x09, CHR 0x0A, CHR 0x0B, CHR 0x0C, CHR 0x0D, CHR 0x1C, CHR 0x1D,
                        CHR 0x1E, CHR 0x1F, CHR 0x20, CHR 0x85, CHR 0xA0])"

fun cls_ok :: "cls \<Rightarrow> char \<Rightarrow> bool" where
  "cls_ok (Lit a) c = (c = a)"
| "cls_ok (OneOf s) c = (c \<in> set s)"
| "cls_ok Dot c = (c \<noteq> CHR 0x0A)"
| "cls_ok Digit c = digit c"
| "cls_ok NonSpace c = (\<not> space c)"

datatype atom = Ch cls | Plus cls | Star cls | Open | Close

definition lit :: "string \<Rightarrow> atom list" where
  "lit s = map (\<lambda>c. Ch (Lit c)) s"

text \<open>
  Matching at the start of a string, by backtracking as \<^verbatim>\<open>re\<close> does: a greedy
  repetition first takes as many characters as it can and gives them back one by one
  while the rest of the pattern fails. The result is the rest of the text after the
  match, and the rest of the text at every group boundary passed, in order.
\<close>

fun rmatch :: "atom list \<Rightarrow> string \<Rightarrow> (string list \<times> string) option" where
  "rmatch [] s = Some ([], s)"
| "rmatch (Open # r) s = map_option (\<lambda>(ms, e). (s # ms, e)) (rmatch r s)"
| "rmatch (Close # r) s = map_option (\<lambda>(ms, e). (s # ms, e)) (rmatch r s)"
| "rmatch (Ch p # r) [] = None"
| "rmatch (Ch p # r) (c # s) = (if cls_ok p c then rmatch r s else None)"
| "rmatch (Plus p # r) [] = None"
| "rmatch (Plus p # r) (c # s) = (if cls_ok p c then rmatch (Star p # r) s else None)"
| "rmatch (Star p # r) [] = rmatch r []"
| "rmatch (Star p # r) (c # s) =
     (if cls_ok p c
      then (case rmatch (Star p # r) s of
              Some m \<Rightarrow> Some m
            | None \<Rightarrow> rmatch r (c # s))
      else rmatch r (c # s))"

text \<open>The text of each group: from its opening boundary up to its closing one.\<close>

fun groups :: "string list \<Rightarrow> string list" where
  "groups (a # b # ms) = take (length a - length b) a # groups ms"
| "groups _ = []"

text \<open>\<^verbatim>\<open>re.search(r, s)\<close>: the leftmost match; \<open>None\<close> when there is none.\<close>

fun re_search :: "atom list \<Rightarrow> string \<Rightarrow> string list option" where
  "re_search r [] = map_option (\<lambda>(ms, e). groups ms) (rmatch r [])"
| "re_search r (c # s) =
     (case rmatch r (c # s) of
        Some (ms, e) \<Rightarrow> Some (groups ms)
      | None \<Rightarrow> re_search r s)"

text \<open>
  \<^verbatim>\<open>re.findall(r, s)\<close> for a pattern with one group: the group of every match, from
  left to right, each search starting where the previous match ended (one character
  further after a match that consumed nothing, which no pattern of the program has).
\<close>

function re_findall :: "atom list \<Rightarrow> string \<Rightarrow> string list" where
  "re_findall r [] = (case rmatch r [] of Some (ms, e) \<Rightarrow> groups ms | None \<Rightarrow> [])"
| "re_findall r (c # s) =
     (case rmatch r (c # s) of
        Some (ms, e) \<Rightarrow>
          groups ms @ (if length e < length (c # s) then re_findall r e else re_findall r s)
      | None \<Rightarrow> re_findall r s)"
  by pat_completeness auto
termination
  by (relation "measure (\<lambda>(r, s). length s)") auto

text \<open>\<^verbatim>\<open>m.groups()\<close> and \<^verbatim>\<open>m.group(1)\<close> on the result of a search that may be \<^verbatim>\<open>None\<close>.\<close>

definition groups_of :: "string list option \<Rightarrow> error + string list" where
  "groups_of m = (case m of None \<Rightarrow> Inl AttributeError | Some g \<Rightarrow> Inr g)"

definition group1 :: "string list option \<Rightarrow> error + string" where
  "group1 m =
     (case m of
        None \<Rightarrow> Inl AttributeError
      | Some [] \<Rightarrow> Inl IndexError
      | Some (g # _) \<Rightarrow> Inr g)"

section \<open>The report parser: \<^verbatim>\<open>parse_buf\<close>\<close>

definition rx_field_size :: "atom list" where
  "rx_field_size =
     lit ''Field size: '' @ [Open, Plus (OneOf ''0123456789.''), Close]
     @ lit '' x '' @ [Open, Plus (OneOf ''0123456789.''), Close]"

definition rx_field_center :: "atom list" where
  "rx_field_center =
     lit ''Field center: (RA,Dec) = ('' @ [Open, Plus (OneOf ''0123456789.-''), Close]
     @ lit '', '' @ [Open, Plus (OneOf ''0123456789.-''), Close]
     @ lit '') deg'' @ [Ch Dot]"

definition rx_pixel_scale :: "atom list" where
  "rx_pixel_scale =
     lit ''pixel scale '' @ [Open, Plus (OneOf ''0123456789.''), Close] @ lit '' arcsec/pix''"

definition rx_constellation :: "atom list" where
  "rx_constellation = [Ch (OneOf ''Tt'')] @ lit ''he constellation '' @ [Open, Plus Dot, Close]"

definition rx_star :: "atom list" where
  "rx_star = lit ''The star '' @ [Open, Plus Dot, Close]"

definition rx_ic :: "atom list" where
  "rx_ic = [Open] @ lit ''IC '' @ [Plus Digit, Star Dot, Close]"

definition rx_ngc :: "atom list" where
  "rx_ngc = [Open] @ lit ''NGC '' @ [Plus Digit, Star Dot, Close]"

definition rx_index :: "atom list" where
  "rx_index =
     lit ''Field '' @ [Plus Digit] @ lit '': solved with index index-''
     @ [Open, Plus (OneOf ''abcdefghijklmnopqrstuvwxyz0123456789-''), Close, Ch Dot, Plus NonSpace]
     @ lit ''endian'' @ [Ch Dot] @ lit ''fits'' @ [Ch Dot]"

definition strs :: "string list \<Rightarrow> pyval" where
  "strs xs = PList (map PStr xs)"

text \<open>
  The last step of \<^verbatim>\<open>parse_buf\<close>: the index is stored when its pattern matches, and
  the \<^verbatim>\<open>AttributeError\<close> of a failed search is swallowed.
\<close>

definition with_index :: "string \<Rightarrow> dict \<Rightarrow> error + dict" where
  "with_index b rv =
     (case group1 (re_search rx_index b) of
        Inr i \<Rightarrow> Inr (AList.update ''index'' (PStr i) rv)
      | Inl e \<Rightarrow> if e = AttributeError then Inr rv else Inl e)"

definition parse_buf :: "string \<Rightarrow> error + dict" where
  "parse_buf b =
     bindE (groups_of (re_search rx_field_size b)) (\<lambda>g.
     bindE (floats g) (\<lambda>fov.
     bindE (groups_of (re_search rx_field_center b)) (\<lambda>tmp.
     bindE (floats tmp) (\<lambda>fc.
     bindE (group1 (re_search rx_pixel_scale b)) (\<lambda>ps.
     bindE (py_float ps) (\<lambda>app.
       with_index b
         (AList.update ''ngc'' (strs (re_findall rx_ngc b))
         (AList.update ''ic'' (strs (re_findall rx_ic b))
         (AList.update ''stars'' (strs (re_findall rx_star b))
         (AList.update ''constellations'' (strs (re_findall rx_constellation b))
         (AList.update ''arcsec_pp'' (PFloat app)
         (AList.update ''field_center'' (PDict (zip [''ra'', ''dec''] fc))
         (AList.update ''fov'' (PList fov) [])))))))))))))"

section \<open>Arithmetic on header values\<close>

text \<open>An \<^verbatim>\<open>int\<close> or a \<^verbatim>\<open>bool\<close> (which is an \<^verbatim>\<open>int\<close> in Python) as an integer.\<close>

fun as_int :: "pyval \<Rightarrow> int option" where
  "as_int (PInt n) = Some n"
| "as_int (PBool b) = Some (if b then 1 else 0)"
| "as_int _ = None"

text \<open>A number as a float, the way mixed arithmetic converts its integer operand.\<close>

fun as_float :: "pyval \<Rightarrow> (error + pyfloat) option" where
  "as_float (PFloat x) = Some (Inr x)"
| "as_float v = map_option float_of_int (as_int v)"

text \<open>
  \<^verbatim>\<open>a * b\<close>: integers multiply exactly, a float operand makes the product a float, a
  string or a list is repeated by an integer, and anything else is a \<^verbatim>\<open>TypeError\<close>.
\<close>

definition py_mul :: "pyval \<Rightarrow> pyval \<Rightarrow> error + pyval" where
  "py_mul a b =
     (case (as_int a, as_int b) of
        (Some m, Some n) \<Rightarrow> Inr (PInt (m * n))
      | _ \<Rightarrow>
        (case (as_float a, as_float b) of
           (Some x, Some y) \<Rightarrow>
             bindE x (\<lambda>x. bindE y (\<lambda>y. Inr (PFloat (fl_mul x y))))
         | _ \<Rightarrow>
           (case (a, as_int b) of
              (PStr t, Some n) \<Rightarrow> Inr (PStr (concat (replicate (nat n) t)))
            | (PList t, Some n) \<Rightarrow> Inr (PList (concat (replicate (nat n) t)))
            | _ \<Rightarrow>
              (case (as_int a, b) of
                 (Some n, PStr t) \<Rightarrow> Inr (PStr (concat (replicate (nat n) t)))
               | (Some n, PList t) \<Rightarrow> Inr (PList (concat (replicate (nat n) t)))
               | _ \<Rightarrow> Inl TypeError))))"

text \<open>
  \<^verbatim>\<open>a / b\<close>: the quotient of two integers is the float nearest to it, a float operand
  converts the other; a zero divisor raises, and only numbers divide.
\<close>

definition py_truediv :: "pyval \<Rightarrow> pyval \<Rightarrow> error + pyval" where
  "py_truediv a b =
     (case (as_int a, as_int b) of
        (Some m, Some n) \<Rightarrow>
          if n = 0 then Inl ZeroDivisionError
          else (case to_double (of_int m / of_int n) of
                  Fin r \<Rightarrow> Inr (PFloat (Fin r))
                | _ \<Rightarrow> Inl OverflowError)
      | _ \<Rightarrow>
        (case (as_float a, as_float b) of
           (Some x, Some y) \<Rightarrow>
             bindE x (\<lambda>x. bindE y (\<lambda>y.
               if y = Fin 0 then Inl ZeroDivisionError else Inr (PFloat (fl_div x y))))
         | _ \<Rightarrow> Inl TypeError))"

text \<open>\<^verbatim>\<open>round(v, n)\<close> with \<open>n \<ge> 0\<close>: an integer is returned as it is, a float rounded.\<close>

definition py_round :: "pyval \<Rightarrow> nat \<Rightarrow> error + pyval" where
  "py_round v n =
     (case as_int v of
        Some m \<Rightarrow> Inr (PInt m)
      | None \<Rightarrow>
        (case v of
           PFloat x \<Rightarrow> bindE (fl_round x n) (\<lambda>r. Inr (PFloat r))
         | _ \<Rightarrow> Inl TypeError))"

section \<open>The result record: the second half of \<^verbatim>\<open>solve_image\<close>\<close>

text \<open>\<^verbatim>\<open>d[k]\<close> raises \<^verbatim>\<open>KeyError\<close> on a missing key; \<^verbatim>\<open>d.get(k, default)\<close> does not.\<close>

definition getitem :: "dict \<Rightarrow> string \<Rightarrow> error + pyval" where
  "getitem d k = (case map_of d k of None \<Rightarrow> Inl KeyError | Some v \<Rightarrow> Inr v)"

definition get_default :: "dict \<Rightarrow> string \<Rightarrow> pyval \<Rightarrow> pyval" where
  "get_default d k v = (case map_of d k of None \<Rightarrow> v | Some x \<Rightarrow> x)"

text \<open>
  One component of the header field of view,
  \<^verbatim>\<open>round(fits_header[n] * fits_header[s] / 3600, 6)\<close>, evaluated from left to right.
\<close>

definition fov_side :: "dict \<Rightarrow> string \<Rightarrow> string \<Rightarrow> error + pyval" where
  "fov_side h n s =
     bindE (getitem h n) (\<lambda>a.
     bindE (getitem h s) (\<lambda>b.
     bindE (py_mul a b) (\<lambda>p.
     bindE (py_truediv p (PInt 3600)) (\<lambda>q.
       py_round q 6))))"

text \<open>The dictionary on the right of \<^verbatim>\<open>rv["hdr"] = ...\<close>, its items evaluated in order.\<close>

definition hdr_of :: "dict \<Rightarrow> error + pyval" where
  "hdr_of h =
     bindE (getitem h ''DEC'') (\<lambda>dec.
     bindE (getitem h ''RA'') (\<lambda>ra.
     bindE (Inr (get_default h ''OBJECT'' (PStr []))) (\<lambda>obj.
     bindE (fov_side h ''NAXIS1'' ''SECPIX1'') (\<lambda>f1.
     bindE (fov_side h ''NAXIS2'' ''SECPIX2'') (\<lambda>f2.
       Inr (PDict [(''loc'', PDict [(''dec'', dec), (''ra'', ra)]),
                   (''obj'', obj),
                   (''fov'', PList [f1, f2])]))))))"

text \<open>\<^verbatim>\<open>try: rv["hdr"] = ... except KeyError: pass\<close>.\<close>

definition with_hdr :: "dict \<Rightarrow> dict \<Rightarrow> error + dict" where
  "with_hdr h rv =
     (case hdr_of h of
        Inr v \<Rightarrow> Inr (AList.update ''hdr'' v rv)
      | Inl e \<Rightarrow> if e = KeyError then Inr rv else Inl e)"

definition rx_sources :: "atom list" where
  "rx_sources = lit ''simplexy: found '' @ [Open, Plus Digit, Close] @ lit '' sources''"

text \<open>\<^verbatim>\<open>if m: rv["sources"] = int(m.group(1))\<close>; a match object is always true.\<close>

definition with_sources :: "string list option \<Rightarrow> dict \<Rightarrow> error + dict" where
  "with_sources m rv =
     (case m of
        None \<Rightarrow> Inr rv
      | Some g \<Rightarrow>
          bindE (group1 m) (\<lambda>d.
          bindE (py_int d) (\<lambda>n.
            Inr (AList.update ''sources'' (PInt n) rv))))"

text \<open>
  Lines 117 to 147 of \<^verbatim>\<open>solve_image\<close>: from the image name, the two clock readings,
  the header and the text the solver printed, to the record returned. The warning
  logged for an unsolved image is not modelled.
\<close>

definition solve_result :: "string \<Rightarrow> pyfloat \<Rightarrow> pyfloat \<Rightarrow> dict \<Rightarrow> string \<Rightarrow> error + dict" where
  "solve_result img t1 t2 fits_header solver_out =
     bindE (Inr (re_search rx_sources solver_out)) (\<lambda>m.
     bindE (fl_round (fl_sub t2 t1) 3) (\<lambda>dt.
     bindE (Inr [(''file'', PStr img), (''solve_time'', PFloat dt), (''solved'', PBool False)]) (\<lambda>rv.
     bindE (with_hdr fits_header rv) (\<lambda>rv.
     bindE (with_sources m rv) (\<lambda>rv.
       if contains ''Did not solve'' solver_out then Inr rv
       else
         bindE (Inr (AList.update ''solved'' (PBool True) rv)) (\<lambda>rv.
         bindE (parse_buf solver_out) (\<lambda>p.
           Inr (dict_update rv p))))))))"

section \<open>The command line of the solver\<close>

text \<open>
  A keyword argument of \<^verbatim>\<open>solve_image\<close>. The code asks two things of it: whether it is
  the object \<^verbatim>\<open>True\<close>, and its \<^verbatim>\<open>str()\<close>. \<open>KwOther\<close> is any other object, given by
  its \<^verbatim>\<open>str()\<close>.
\<close>

datatype kwval = KwBool bool | KwInt int | KwStr string | KwOther string

fun nat_str :: "nat \<Rightarrow> string" where
  "nat_str n =
     (if n < 10 then [''0123456789'' ! n]
      else nat_str (n div 10) @ [''0123456789'' ! (n mod 10)])"

declare nat_str.simps [simp del]

fun kw_str :: "kwval \<Rightarrow> string" where
  "kw_str (KwBool b) = (if b then ''True'' else ''False'')"
| "kw_str (KwInt n) = (if n < 0 then ''-'' @ nat_str (nat (- n)) else nat_str (nat n))"
| "kw_str (KwStr s) = s"
| "kw_str (KwOther s) = s"

text \<open>The loop over \<^verbatim>\<open>kwargs.items()\<close>, appending to \<^verbatim>\<open>solver_args\<close>.\<close>

fun add_args :: "(string \<times> kwval) list \<Rightarrow> string list \<Rightarrow> string list" where
  "add_args [] solver_args = solver_args"
| "add_args ((k, v) # kwargs) solver_args =
     (let k = map (\<lambda>c. if c = CHR ''_'' then CHR ''-'' else c) k;
          d = (if length k = 1 then ''-'' else ''--'')
      in if v = KwBool True
         then add_args kwargs (solver_args @ [d @ k])
         else add_args kwargs (solver_args @ [d @ k, kw_str v]))"

definition solver_args_of :: "string \<Rightarrow> (string \<times> kwval) list \<Rightarrow> string \<Rightarrow> string list" where
  "solver_args_of wd kwargs img =
     add_args kwargs [''solve-field'', ''--dir'', wd, ''--temp-dir'', wd] @ [img]"

section \<open>The operating system\<close>

text \<open>
  A file system is an association list from absolute paths to nodes; the entries of a
  directory are the paths that extend it by one component. What the program cannot
  decide is a parameter: the name \<^verbatim>\<open>mkdtemp\<close> picks, the header \<^verbatim>\<open>fitsio\<close> reads,
  what the \<^verbatim>\<open>solve-field\<close> process does (\<open>None\<close> when it cannot be started), the
  readings of the monotonic clock, the removals the system refuses, and the text
  \<^verbatim>\<open>json.dump\<close> writes for a value.
\<close>

datatype node = File string | Dir

type_synonym fsys = "(string \<times> node) list"

record os =
  tmp_name :: "fsys \<Rightarrow> string option"
  read_header :: "string \<Rightarrow> fsys \<Rightarrow> dict option"
  solve_field :: "string list \<Rightarrow> fsys \<Rightarrow> (fsys \<times> string) option"
  monotonic_at :: "nat \<Rightarrow> pyfloat"
  removal_denied :: "string \<Rightarrow> bool"
  json_text :: "pyval \<Rightarrow> string"

record world =
  fsys :: fsys
  ticks :: nat

type_synonym 'a io = "world \<Rightarrow> (error + 'a) \<times> world"

definition bindIO :: "'a io \<Rightarrow> ('a \<Rightarrow> 'b io) \<Rightarrow> 'b io" where
  "bindIO m f w = (case m w of (Inl e, w') \<Rightarrow> (Inl e, w') | (Inr x, w') \<Rightarrow> f x w')"

definition return :: "'a \<Rightarrow> 'a io" where
  "return x w = (Inr x, w)"

text \<open>\<^verbatim>\<open>try: m except (OSError, IOError): pass\<close>.\<close>

definition pass_OSError :: "unit io \<Rightarrow> unit io" where
  "pass_OSError m w =
     (case m w of
        (Inl e, w') \<Rightarrow> if e = OSError then (Inr (), w') else (Inl e, w')
      | (Inr x, w') \<Rightarrow> (Inr x, w'))"

subsection \<open>Paths\<close>

definition dir_prefix :: "string \<Rightarrow> string" where
  "dir_prefix d = (if d \<noteq> [] \<and> last d = CHR ''/'' then d else d @ ''/'')"

text \<open>\<^verbatim>\<open>os.path.join(a, b)\<close> and \<^verbatim>\<open>os.path.split(p)\<close> of \<^verbatim>\<open>posixpath\<close>.\<close>

definition pjoin :: "string \<Rightarrow> string \<Rightarrow> string" where
  "pjoin a b =
     (if b \<noteq> [] \<and> hd b = CHR ''/'' then b
      else if a = [] then b
      else dir_prefix a @ b)"

definition rstrip_slash :: "string \<Rightarrow> string" where
  "rstrip_slash p = rev (dropWhile (\<lambda>c. c = CHR ''/'') (rev p))"

definition path_split :: "string \<Rightarrow> string \<times> string" where
  "path_split p =
     (let tail = rev (takeWhile (\<lambda>c. c \<noteq> CHR ''/'') (rev p));
          head = rev (dropWhile (\<lambda>c. c \<noteq> CHR ''/'') (rev p))
      in (if rstrip_slash head = [] then head else rstrip_slash head, tail))"

text \<open>A path strictly below directory \<open>d\<close>, and one exactly one component below it.\<close>

definition below :: "string \<Rightarrow> string \<Rightarrow> bool" where
  "below d k = (length (dir_prefix d) < length k \<and> take (length (dir_prefix d)) k = dir_prefix d)"

definition child :: "string \<Rightarrow> string \<Rightarrow> bool" where
  "child d k = (below d k \<and> CHR ''/'' \<notin> set (drop (length (dir_prefix d)) k))"

subsection \<open>System calls\<close>

definition listdir :: "string \<Rightarrow> string list io" where
  "listdir d w =
     (if map_of (fsys w) d = Some Dir
      then (Inr (map (drop (length (dir_prefix d))) (filter (child d) (map fst (fsys w)))), w)
      else (Inl OSError, w))"

definition is_file :: "node option \<Rightarrow> bool" where
  "is_file n = (case n of Some (File c) \<Rightarrow> True | _ \<Rightarrow> False)"

definition unlink :: "os \<Rightarrow> string \<Rightarrow> unit io" where
  "unlink sys p w =
     (if is_file (map_of (fsys w) p) \<and> \<not> removal_denied sys p
      then (Inr (), w\<lparr>fsys := AList.delete p (fsys w)\<rparr>)
      else (Inl OSError, w))"

definition rmdir :: "os \<Rightarrow> string \<Rightarrow> unit io" where
  "rmdir sys p w =
     (if map_of (fsys w) p = Some Dir \<and> \<not> list_ex (below p) (map fst (fsys w))
         \<and> \<not> removal_denied sys p
      then (Inr (), w\<lparr>fsys := AList.delete p (fsys w)\<rparr>)
      else (Inl OSError, w))"

text \<open>\<^verbatim>\<open>open(p, "w")\<close> followed by one \<^verbatim>\<open>write\<close>, and \<^verbatim>\<open>open(p).read()\<close>.\<close>

definition write_file :: "string \<Rightarrow> string \<Rightarrow> unit io" where
  "write_file p text w =
     (if map_of (fsys w) (fst (path_split p)) = Some Dir \<and> map_of (fsys w) p \<noteq> Some Dir
      then (Inr (), w\<lparr>fsys := AList.update p (File text) (fsys w)\<rparr>)
      else (Inl OSError, w))"

definition read_file :: "string \<Rightarrow> string io" where
  "read_file p w =
     (case map_of (fsys w) p of
        Some (File text) \<Rightarrow> (Inr text, w)
      | _ \<Rightarrow> (Inl OSError, w))"

text \<open>\<^verbatim>\<open>mkdtemp(prefix="astrometry_", dir="/tmp")\<close>: a new directory under \<^verbatim>\<open>/tmp\<close>.\<close>

definition mkdtemp :: "os \<Rightarrow> string io" where
  "mkdtemp sys w =
     (case tmp_name sys (fsys w) of
        None \<Rightarrow> (Inl OSError, w)
      | Some n \<Rightarrow>
          let wd = pjoin ''/tmp'' (''astrometry_'' @ n)
          in if n \<noteq> [] \<and> CHR ''/'' \<notin> set n \<and> map_of (fsys w) ''/tmp'' = Some Dir
                \<and> map_of (fsys w) wd = None
             then (Inr wd, w\<lparr>fsys := AList.update wd Dir (fsys w)\<rparr>)
             else (Inl OSError, w))"

definition monotonic :: "os \<Rightarrow> pyfloat io" where
  "monotonic sys w = (Inr (monotonic_at sys (ticks w)), w\<lparr>ticks := Suc (ticks w)\<rparr>)"

text \<open>\<^verbatim>\<open>run(args, capture_output=True, text=True).stdout\<close>.\<close>

definition run_stdout :: "os \<Rightarrow> string list \<Rightarrow> string io" where
  "run_stdout sys args w =
     (case solve_field sys args (fsys w) of
        None \<Rightarrow> (Inl OSError, w)
      | Some (f, out) \<Rightarrow> (Inr out, w\<lparr>fsys := f\<rparr>))"

text \<open>
  The two parts that \<^verbatim>\<open>os.path.split\<close> returns are together no longer than the path:
  the loop of \<^verbatim>\<open>os.removedirs\<close> over the parents of a directory ends.
\<close>

lemma length_rstrip_slash: "length (rstrip_slash p) \<le> length p"
  unfolding rstrip_slash_def
  by (metis length_dropWhile_le length_rev)

lemma length_path_split:
  "path_split p = (h, t) \<Longrightarrow> length h + length t \<le> length p"
proof -
  assume a: "path_split p = (h, t)"
  let ?q = "\<lambda>c. c \<noteq> CHR ''/''"
  let ?hd = "rev (dropWhile ?q (rev p))"
  have t: "t = rev (takeWhile ?q (rev p))"
    using a by (simp add: path_split_def Let_def)
  have h: "length h \<le> length ?hd"
    using a length_rstrip_slash [of ?hd] by (auto simp: path_split_def Let_def split: if_splits)
  have "length (takeWhile ?q (rev p)) + length (dropWhile ?q (rev p)) = length p"
    by (metis length_append length_rev takeWhile_dropWhile_id)
  with t h show ?thesis by simp
qed

lemma path_split_shorter:
  "path_split head = (h, t) \<Longrightarrow> tail \<noteq> [] \<Longrightarrow> length h + length t < length head + length tail"
  using length_path_split [of head h t] by (cases tail) auto

function prune_parents :: "os \<Rightarrow> string \<times> string \<Rightarrow> world \<Rightarrow> world" where
  "prune_parents sys (head, tail) w =
     (if head \<noteq> [] \<and> tail \<noteq> []
      then (case rmdir sys head w of
              (Inl e, w') \<Rightarrow> w'
            | (Inr x, w') \<Rightarrow> prune_parents sys (path_split head) w')
      else w)"
  by pat_completeness auto
termination
  by (relation "measure (\<lambda>(sys, (head, tail), w). length head + length tail)")
     (auto split: prod.splits intro: path_split_shorter)

declare prune_parents.simps [simp del]

text \<open>
  \<^verbatim>\<open>os.removedirs(name)\<close>: the leaf directory is removed (an error there is raised),
  then every parent in turn while it can be removed.
\<close>

definition removedirs :: "os \<Rightarrow> string \<Rightarrow> unit io" where
  "removedirs sys name =
     bindIO (rmdir sys name) (\<lambda>_ w.
       let (head, tail) = path_split name;
           (head, tail) = (if tail = [] then path_split head else (head, tail))
       in (Inr (), prune_parents sys (head, tail) w))"

section \<open>\<^verbatim>\<open>rm_rf\<close> and \<^verbatim>\<open>solve_image\<close>\<close>

text \<open>The loop of \<^verbatim>\<open>rm_rf\<close> over the names that \<^verbatim>\<open>listdir\<close> returned.\<close>

fun unlink_each :: "os \<Rightarrow> string \<Rightarrow> string list \<Rightarrow> unit io" where
  "unlink_each sys d [] = return ()"
| "unlink_each sys d (f # names) =
     bindIO (pass_OSError (unlink sys (pjoin d f))) (\<lambda>_. unlink_each sys d names)"

definition rm_rf :: "os \<Rightarrow> string \<Rightarrow> unit io" where
  "rm_rf sys d =
     bindIO (listdir d) (\<lambda>names.
     bindIO (unlink_each sys d names) (\<lambda>_.
       pass_OSError (removedirs sys d)))"

text \<open>\<^verbatim>\<open>try: fits_header = dict(fitsio.read_header(img)) except OSError: fits_header = dict()\<close>.\<close>

definition fits_header_of :: "os \<Rightarrow> string \<Rightarrow> dict io" where
  "fits_header_of sys img w =
     (case read_header sys img (fsys w) of Some h \<Rightarrow> (Inr h, w) | None \<Rightarrow> (Inr [], w))"

text \<open>
  \<^verbatim>\<open>solve_image\<close>. What it logs and what it prints under \<^verbatim>\<open>solver_debug\<close> is not
  modelled.
\<close>

definition solve_image :: "os \<Rightarrow> string \<Rightarrow> bool \<Rightarrow> bool \<Rightarrow> (string \<times> kwval) list \<Rightarrow> dict io" where
  "solve_image sys img save_temps solver_debug kwargs =
     bindIO (mkdtemp sys) (\<lambda>wd.
     bindIO (return (solver_args_of wd kwargs img)) (\<lambda>solver_args.
     bindIO (fits_header_of sys img) (\<lambda>fits_header.
     bindIO (monotonic sys) (\<lambda>t1.
     bindIO (run_stdout sys solver_args) (\<lambda>solver_out.
     bindIO (monotonic sys) (\<lambda>t2.
     bindIO (if save_temps then write_file (pjoin wd ''solver.txt'') solver_out
             else rm_rf sys wd) (\<lambda>_ w.
       (solve_result img t1 t2 fits_header solver_out, w))))))))"

section \<open>The batch driver: \<^verbatim>\<open>main\<close>\<close>

text \<open>
  The parsed command line (\<open>out_path\<close> is \<^verbatim>\<open>args.output\<close>). The position hints and
  scale bounds that \<^verbatim>\<open>get_args\<close> also accepts are never read by \<^verbatim>\<open>main\<close>.
\<close>

record args =
  verbose :: nat
  out_path :: string
  test_file :: bool
  save_temps :: bool
  files :: "string list"

text \<open>The record of one file: lines 160 to 167.\<close>

definition solve_res_of :: "os \<Rightarrow> args \<Rightarrow> string \<Rightarrow> dict io" where
  "solve_res_of sys a f =
     (if test_file a
      then bindIO (read_file f) (\<lambda>b w.
             (bindE (parse_buf b) (\<lambda>solve_res.
                Inr (AList.update ''solve_time'' (PFloat (Fin 0))
                      (AList.update ''file'' (PStr f) solve_res))), w))
      else solve_image sys f (save_temps a) (2 < verbose a) [(''guess_scale'', KwBool True)])"

text \<open>The loop over \<^verbatim>\<open>args.files\<close>, with \<^verbatim>\<open>solver_results\<close> as it grows.\<close>

fun main_loop :: "os \<Rightarrow> args \<Rightarrow> string list \<Rightarrow> dict list \<Rightarrow> dict list io" where
  "main_loop sys a [] solver_results = return solver_results"
| "main_loop sys a (f # fs) solver_results =
     bindIO (solve_res_of sys a f) (\<lambda>solve_res.
     bindIO (\<lambda>w. (getitem solve_res ''solved'', w)) (\<lambda>solved.
       main_loop sys a fs
         (if truthy solved \<or> 1 < verbose a then solver_results @ [solve_res]
          else solver_results)))"

definition main :: "os \<Rightarrow> args \<Rightarrow> unit io" where
  "main sys a =
     bindIO (main_loop sys a (files a) []) (\<lambda>solver_results.
       write_file (out_path a) (json_text sys (PList (map PDict solver_results))))"

section \<open>Reference descriptions used in the statements below\<close>

text \<open>
  The command line as the documentation of \<^verbatim>\<open>solve_image\<close> describes it: the flag of
  an option name, and the tokens one option contributes.
\<close>

definition dashed :: "string \<Rightarrow> string" where
  "dashed k = map (\<lambda>c. if c = CHR ''_'' then CHR ''-'' else c) k"

definition flag :: "string \<Rightarrow> string" where
  "flag k = (if length k = 1 then ''-'' @ dashed k else ''--'' @ dashed k)"

definition option_tokens :: "string \<times> kwval \<Rightarrow> string list" where
  "option_tokens kv =
     (if snd kv = KwBool True then [flag (fst kv)] else [flag (fst kv), kw_str (snd kv)])"

text \<open>
  The report of the specification's example, and reports made of one line per star or
  per constellation.
\<close>

definition polaris_report :: string where
  "polaris_report =
     ''Field size: 1.5 x 1.2 degrees\<newline>Field center: (RA,Dec) = (10.5, -20.25) deg.\<newline>...pixel scale 1.2 arcsec/pix...\<newline>The star Polaris\<newline>the constellation Ursa Minor\<newline>''"

definition star_lines :: "string list \<Rightarrow> string" where
  "star_lines ns = concat (map (\<lambda>n. ''The star '' @ n @ ''\<newline>'') ns)"

definition constellation_lines :: "string list \<Rightarrow> string" where
  "constellation_lines ns = concat (map (\<lambda>n. ''the constellation '' @ n @ ''\<newline>'') ns)"

text \<open>A header with the pixel geometry of the specification's example.\<close>

definition example_header :: dict where
  "example_header =
     [(''NAXIS1'', PInt 4000), (''NAXIS2'', PInt 3000), (''OBJECT'', PStr ''M31''),
      (''RA'', PFloat (Fin 10)), (''DEC'', PFloat (Fin 41)),
      (''SECPIX1'', PFloat (Fin 1)), (''SECPIX2'', PFloat (Fin 1))]"

text \<open>The record as lines 118 to 122 start it, before the header and the verdict.\<close>

definition base_record :: "string \<Rightarrow> pyfloat \<Rightarrow> dict" where
  "base_record img dt =
     [(''file'', PStr img), (''solve_time'', PFloat dt), (''solved'', PBool False)]"

text \<open>
  A system for the examples: \<^verbatim>\<open>mkdtemp\<close> picks a fixed name, no image has a readable
  header, the solver leaves the files alone and prints what a script says for the image
  (the last argument), or cannot be started when the script says nothing; the clock
  advances by one second per reading and \<^verbatim>\<open>/tmp\<close> itself cannot be removed. The
  world holds \<^verbatim>\<open>/tmp\<close> and an output directory.
\<close>

definition scripted_os :: "(string \<Rightarrow> string option) \<Rightarrow> os" where
  "scripted_os script =
     \<lparr>tmp_name = (\<lambda>f. Some ''x3k9q2ab''),
      read_header = (\<lambda>img f. None),
      solve_field = (\<lambda>args f. map_option (\<lambda>out. (f, out)) (script (last args))),
      monotonic_at = (\<lambda>n. Fin (of_nat n)),
      removal_denied = (\<lambda>p. p = ''/tmp''),
      json_text = (\<lambda>v. ''[...]'')\<rparr>"

definition small_world :: world where
  "small_world = \<lparr>fsys = [(''/tmp'', Dir), (''/out'', Dir)], ticks = 0\<rparr>"

text \<open>
  Reports for the examples: one that lacks the field center, and a complete one that
  also carries the failure marker.
\<close>

definition size_only_report :: string where
  "size_only_report = ''Field size: 1.5 x 1.2 degrees\<newline>''"

definition marked_report :: string where
  "marked_report = polaris_report @ ''Did not solve\<newline>''"

text \<open>
  The source count of a text, when it has one, is short enough for \<^verbatim>\<open>int\<close>; and a
  report with the marker whose source count has 4301 digits.
\<close>

definition count_fits :: "string \<Rightarrow> bool" where
  "count_fits out =
     (case re_search rx_sources out of
        None \<Rightarrow> True
      | Some g \<Rightarrow> list_all (\<lambda>d. length d \<le> max_str_digits) g)"

definition long_count_report :: string where
  "long_count_report =
     ''simplexy: found '' @ replicate 4301 (CHR ''7'') @ '' sources\<newline>Did not solve\<newline>''"

text \<open>
  The six header keys that \<^verbatim>\<open>solve_image\<close> reads with \<^verbatim>\<open>fits_header[...]\<close>, in the
  order it reads them, and a header that has them all but no \<^verbatim>\<open>OBJECT\<close>.
\<close>

definition six_keys :: "string list" where
  "six_keys = [''DEC'', ''RA'', ''NAXIS1'', ''SECPIX1'', ''NAXIS2'', ''SECPIX2'']"

definition no_object_header :: dict where
  "no_object_header =
     [(''NAXIS1'', PInt 4000), (''NAXIS2'', PInt 3000),
      (''RA'', PFloat (Fin 10)), (''DEC'', PFloat (Fin 41)),
      (''SECPIX1'', PFloat (Fin 1)), (''SECPIX2'', PFloat (Fin 1))]"

text \<open>A transcript run: the example report saved as a file, read in transcript mode.\<close>

definition transcript_world :: world where
  "transcript_world =
     \<lparr>fsys = [(''/out'', Dir), (''/out/polaris.txt'', File polaris_report)], ticks = 0\<rparr>"

definition transcript_args :: args where
  "transcript_args =
     \<lparr>verbose = 2, out_path = ''/out/result.json'', test_file = True,
      save_temps = False, files = [''/out/polaris.txt'']\<rparr>"

text \<open>
  The batch as the specification describes it: every file gives one record, in input
  order, and the inclusion policy then keeps a record when it is solved or when the
  verbosity count exceeds one.
\<close>

fun run_each :: "os \<Rightarrow> args \<Rightarrow> string list \<Rightarrow> dict list io" where
  "run_each sys a [] = return []"
| "run_each sys a (f # fs) =
     bindIO (solve_res_of sys a f) (\<lambda>r.
     bindIO (run_each sys a fs) (\<lambda>rs.
       return (r # rs)))"

definition solved_flag :: "dict \<Rightarrow> bool" where
  "solved_flag r = (case map_of r ''solved'' of Some v \<Rightarrow> truthy v | None \<Rightarrow> False)"

definition keep :: "args \<Rightarrow> dict \<Rightarrow> bool" where
  "keep a r = (solved_flag r \<or> 1 < verbose a)"

text \<open>
  Runs for the examples, at a given verbosity: the solver cannot be started on
  \<^verbatim>\<open>missing.fits\<close>, fails on \<^verbatim>\<open>blank.fits\<close>, and prints the example report for any
  other image.
\<close>

definition batch_args :: "nat \<Rightarrow> string list \<Rightarrow> args" where
  "batch_args v fs =
     \<lparr>verbose = v, out_path = ''/out/result.json'', test_file = False,
      save_temps = False, files = fs\<rparr>"

definition batch_script :: "string \<Rightarrow> string option" where
  "batch_script img =
     (if img = ''missing.fits'' then None
      else if img = ''blank.fits'' then Some ''Did not solve\<newline>''
      else Some polaris_report)"

text \<open>
  The record of an image on which the solver printed the example report, after one
  second.
\<close>

definition polaris_record :: "string \<Rightarrow> dict" where
  "polaris_record img =
     [(''file'', PStr img), (''solve_time'', PFloat (Fin 1)), (''solved'', PBool True),
      (''fov'', PList [PFloat (to_double 1.5), PFloat (to_double 1.2)]),
      (''field_center'',
         PDict [(''ra'', PFloat (to_double 10.5)), (''dec'', PFloat (to_double (- 20.25)))]),
      (''arcsec_pp'', PFloat (to_double 1.2)),
      (''constellations'', PList [PStr ''Ursa Minor'']),
      (''stars'', PList [PStr ''Polaris'']),
      (''ic'', PList []),
      (''ngc'', PList [])]"

text \<open>
  A directory that \<^verbatim>\<open>rm_rf\<close> can empty: everything below it is a regular file directly
  in it, and the system refuses none of the removals.
\<close>

definition removable_files :: "os \<Rightarrow> string \<Rightarrow> fsys \<Rightarrow> bool" where
  "removable_files sys d f =
     list_all (\<lambda>(k, n). below d k \<longrightarrow> child d k \<and> n \<noteq> Dir \<and> \<not> removal_denied sys k) f"

text \<open>
  A solver that reports a failure and leaves, in its working directory (the third
  argument), a file whose removal the system refuses; and a world in which the working
  directory of a finished run holds two regular files.
\<close>

definition stubborn_os :: os where
  "stubborn_os =
     (scripted_os (\<lambda>img. None))
       \<lparr>solve_field :=
          (\<lambda>args f. Some (f @ [(args ! 2 @ ''/core'', File ''...'')], ''Did not solve\<newline>'')),
        removal_denied := (\<lambda>p. p = ''/tmp'' \<or> p = ''/tmp/astrometry_x3k9q2ab/core'')\<rparr>"

definition scratch_world :: world where
  "scratch_world =
     \<lparr>fsys = [(''/tmp'', Dir), (''/tmp/astrometry_x3k9q2ab'', Dir),
              (''/tmp/astrometry_x3k9q2ab/m31.axy'', File ''...''),
              (''/tmp/astrometry_x3k9q2ab/m31.wcs'', File ''...'')],
      ticks = 2\<rparr>"

section \<open>Evaluating binary64 arithmetic on numerals\<close>

text \<open>
  Rules with which the simplifier computes \<open>to_double\<close> at a numeral: floor and
  ceiling of a quotient of numerals, and the binary digits of a numeral.
\<close>

lemma floor_rat_numeral_div [simp]:
  "\<lfloor>numeral a / numeral b :: rat\<rfloor> = numeral a div numeral b"
  by (metis floor_divide_of_int_eq of_int_numeral)

lemma floor_rat_one_div [simp]:
  "\<lfloor>1 / numeral b :: rat\<rfloor> = 1 div numeral b"
  by (metis floor_divide_of_int_eq of_int_numeral of_int_1)

lemma ceiling_rat_numeral_div [simp]:
  "\<lceil>numeral a / numeral b :: rat\<rceil> = - (- numeral a div numeral b)"
  by (metis ceiling_def floor_divide_of_int_eq minus_divide_left of_int_minus of_int_numeral)

lemma bits_0: "bits 0 = 0"
  by (simp add: bits.simps)

lemma bits_Suc0: "bits (Suc 0) = 1"
  by (simp add: bits.simps)

lemma bits_numeral: "bits (numeral k) = Suc (bits (numeral k div 2))"
  by (subst bits.simps) simp

lemmas dbl_eval =
  to_double_def dbl_mag_def dbl_exp_def ilog2_def bits_0 bits_Suc0 bits_numeral
  rhe_def pow2_def Let_def

section \<open>The command line (C6)\<close>

lemma add_args_tokens:
  "add_args kwargs acc = acc @ concat (map option_tokens kwargs)"
  by (induction kwargs arbitrary: acc)
     (auto simp: option_tokens_def flag_def dashed_def Let_def)

text \<open>
  C6. The argument vector is the program name, the working directory as both \<^verbatim>\<open>--dir\<close>
  and \<^verbatim>\<open>--temp-dir\<close>, the tokens of every option in order, and the image path last. An
  option whose value is \<^verbatim>\<open>True\<close> gives its flag alone, any other value gives the flag
  followed by the value as a string; the flag has one dash when the name has one
  character and two otherwise, and every underscore of the name becomes a dash.
\<close>

theorem solver_args_tokens:
  "solver_args_of wd kwargs img =
     [''solve-field'', ''--dir'', wd, ''--temp-dir'', wd]
     @ concat (map option_tokens kwargs) @ [img]
   \<and> last (solver_args_of wd kwargs img) = img
   \<and> option_tokens (k, KwBool True) = [flag k]
   \<and> (v \<noteq> KwBool True \<longrightarrow> option_tokens (k, v) = [flag k, kw_str v])
   \<and> (length k = 1 \<longrightarrow> flag k = ''-'' @ dashed k)
   \<and> (length k \<noteq> 1 \<longrightarrow> flag k = ''--'' @ dashed k)
   \<and> length (dashed k) = length k
   \<and> (\<forall>i < length k. dashed k ! i = (if k ! i = CHR ''_'' then CHR ''-'' else k ! i))"
  by (simp add: solver_args_of_def add_args_tokens option_tokens_def flag_def dashed_def)

lemma nat_str_2: "nat_str 2 = ''2''"
  by (simp add: nat_str.simps)

text \<open>The two examples of the docstring of \<^verbatim>\<open>solve_image\<close>, in one call.\<close>

theorem solver_args_tokens_witness:
  "solver_args_of ''/tmp/astrometry_x'' [(''long_kw_param'', KwInt 2), (''L'', KwBool True)]
      ''a.fits''
     = [''solve-field'', ''--dir'', ''/tmp/astrometry_x'', ''--temp-dir'', ''/tmp/astrometry_x'',
        ''--long-kw-param'', ''2'', ''-L'', ''a.fits'']
   \<and> KwInt 2 \<noteq> KwBool True
   \<and> option_tokens (''long_kw_param'', KwInt 2) = [''--long-kw-param'', ''2'']
   \<and> length ''L'' = 1 \<and> flag ''L'' = ''-L''
   \<and> length ''long_kw_param'' \<noteq> 1 \<and> flag ''long_kw_param'' = ''--long-kw-param''"
  using solver_args_tokens [of "''/tmp/astrometry_x''"
      "[(''long_kw_param'', KwInt 2), (''L'', KwBool True)]" "''a.fits''" "''L''" "KwInt 2"]
    solver_args_tokens [of "''/tmp/astrometry_x''"
      "[(''long_kw_param'', KwInt 2), (''L'', KwBool True)]" "''a.fits''" "''long_kw_param''"
      "KwInt 2"]
  by (simp add: option_tokens_def flag_def dashed_def nat_str_2)

section \<open>The example report (C7)\<close>

lemma rmatch_rest_of_line:
  "CHR 0x0A \<notin> set n \<Longrightarrow>
   rmatch [Star Dot, Close] (n @ CHR 0x0A # t) = Some ([CHR 0x0A # t], CHR 0x0A # t)"
  by (induction n) auto

lemma rmatch_name_group:
  assumes "n \<noteq> []" "CHR 0x0A \<notin> set n"
  shows "rmatch [Plus Dot, Close] (n @ CHR 0x0A # t) = Some ([CHR 0x0A # t], CHR 0x0A # t)"
proof -
  obtain c n' where n: "n = c # n'" using assms(1) by (cases n) auto
  have "rmatch [Star Dot, Close] (n' @ CHR 0x0A # t) = Some ([CHR 0x0A # t], CHR 0x0A # t)"
    using assms(2) n by (intro rmatch_rest_of_line) simp
  then show ?thesis using assms(2) n by auto
qed

lemma findall_star_line:
  assumes "n \<noteq> []" "CHR 0x0A \<notin> set n"
  shows "re_findall rx_star (''The star '' @ n @ ''\<newline>'' @ t) = n # re_findall rx_star t"
proof -
  define s where "s = ''he star '' @ n @ CHR 0x0A # t"
  have eq: "''The star '' @ n @ ''\<newline>'' @ t = CHR ''T'' # s"
    by (simp add: s_def)
  have m: "rmatch rx_star (CHR ''T'' # s) = Some ([n @ CHR 0x0A # t, CHR 0x0A # t], CHR 0x0A # t)"
    by (simp add: s_def rx_star_def lit_def rmatch_name_group [OF assms])
  have len: "length t < length s"
    by (simp add: s_def)
  have nl: "rmatch rx_star (CHR 0x0A # t) = None"
    by (simp add: rx_star_def lit_def)
  show ?thesis
    unfolding eq by (simp add: m len nl)
qed

lemma findall_constellation_line:
  assumes "n \<noteq> []" "CHR 0x0A \<notin> set n"
  shows "re_findall rx_constellation (''the constellation '' @ n @ ''\<newline>'' @ t)
           = n # re_findall rx_constellation t"
proof -
  define s where "s = ''he constellation '' @ n @ CHR 0x0A # t"
  have eq: "''the constellation '' @ n @ ''\<newline>'' @ t = CHR ''t'' # s"
    by (simp add: s_def)
  have m: "rmatch rx_constellation (CHR ''t'' # s)
             = Some ([n @ CHR 0x0A # t, CHR 0x0A # t], CHR 0x0A # t)"
    by (simp add: s_def rx_constellation_def lit_def rmatch_name_group [OF assms])
  have len: "length t < length s"
    by (simp add: s_def)
  have nl: "rmatch rx_constellation (CHR 0x0A # t) = None"
    by (simp add: rx_constellation_def lit_def)
  show ?thesis
    unfolding eq by (simp add: m len nl)
qed

lemma findall_star_lines:
  "\<forall>n \<in> set ns. n \<noteq> [] \<and> CHR 0x0A \<notin> set n \<Longrightarrow> re_findall rx_star (star_lines ns) = ns"
proof (induction ns)
  case Nil
  show ?case by (simp add: star_lines_def rx_star_def lit_def)
next
  case (Cons n ns)
  have "re_findall rx_star (''The star '' @ n @ ''\<newline>'' @ star_lines ns) = n # re_findall rx_star (star_lines ns)"
    using Cons.prems by (intro findall_star_line) auto
  then show ?case using Cons by (simp add: star_lines_def)
qed

lemma findall_constellation_lines:
  "\<forall>n \<in> set ns. n \<noteq> [] \<and> CHR 0x0A \<notin> set n \<Longrightarrow>
   re_findall rx_constellation (constellation_lines ns) = ns"
proof (induction ns)
  case Nil
  show ?case by (simp add: constellation_lines_def rx_constellation_def lit_def)
next
  case (Cons n ns)
  have "re_findall rx_constellation (''the constellation '' @ n @ ''\<newline>'' @ constellation_lines ns)
          = n # re_findall rx_constellation (constellation_lines ns)"
    using Cons.prems by (intro findall_constellation_line) auto
  then show ?case using Cons by (simp add: constellation_lines_def)
qed

lemma polaris_searches:
  "re_search rx_field_size polaris_report = Some [''1.5'', ''1.2'']"
  "re_search rx_field_center polaris_report = Some [''10.5'', ''-20.25'']"
  "re_search rx_pixel_scale polaris_report = Some [''1.2'']"
  "re_search rx_index polaris_report = None"
  by (simp_all add: polaris_report_def rx_field_size_def rx_field_center_def rx_pixel_scale_def
        rx_index_def lit_def digit_def)

lemma polaris_findalls:
  "re_findall rx_constellation polaris_report = [''Ursa Minor'']"
  "re_findall rx_star polaris_report = [''Polaris'']"
  "re_findall rx_ic polaris_report = []"
  "re_findall rx_ngc polaris_report = []"
  by (simp_all add: polaris_report_def rx_constellation_def rx_star_def rx_ic_def rx_ngc_def lit_def)

lemma polaris_floats:
  "py_float ''1.5'' = Inr (to_double 1.5)"
  "py_float ''1.2'' = Inr (to_double 1.2)"
  "py_float ''10.5'' = Inr (to_double 10.5)"
  "py_float ''-20.25'' = Inr (to_double (- 20.25))"
  by (simp_all add: py_float_def unsigned_float_def digit_def nat_of_digits_def)

lemma polaris_parsed:
  "parse_buf polaris_report = Inr
     [(''fov'', PList [PFloat (to_double 1.5), PFloat (to_double 1.2)]),
      (''field_center'',
         PDict [(''ra'', PFloat (to_double 10.5)), (''dec'', PFloat (to_double (- 20.25)))]),
      (''arcsec_pp'', PFloat (to_double 1.2)),
      (''constellations'', PList [PStr ''Ursa Minor'']),
      (''stars'', PList [PStr ''Polaris'']),
      (''ic'', PList []),
      (''ngc'', PList [])]"
  unfolding parse_buf_def with_index_def polaris_searches polaris_findalls
  by (simp add: groups_of_def group1_def bindE_def polaris_floats strs_def)

text \<open>
  C7. On the example report the parser returns the field of view \<open>[1.5, 1.2]\<close>, the
  center \<open>{ra: 10.5, dec: -20.25}\<close>, the pixel scale \<open>1.2\<close>, the star Polaris and the
  constellation Ursa Minor (and no catalogue entry and no index). Whatever the names, a
  report of one line per star, or per constellation, yields exactly those names, in
  their order and with their repetitions.
\<close>

theorem parse_buf_polaris:
  "parse_buf polaris_report = Inr
     [(''fov'', PList [PFloat (to_double 1.5), PFloat (to_double 1.2)]),
      (''field_center'',
         PDict [(''ra'', PFloat (to_double 10.5)), (''dec'', PFloat (to_double (- 20.25)))]),
      (''arcsec_pp'', PFloat (to_double 1.2)),
      (''constellations'', PList [PStr ''Ursa Minor'']),
      (''stars'', PList [PStr ''Polaris'']),
      (''ic'', PList []),
      (''ngc'', PList [])]
   \<and> ((\<forall>n \<in> set ns. n \<noteq> [] \<and> CHR 0x0A \<notin> set n) \<longrightarrow>
        re_findall rx_star (star_lines ns) = ns
        \<and> re_findall rx_constellation (constellation_lines ns) = ns)"
  using polaris_parsed findall_star_lines [of ns] findall_constellation_lines [of ns]
  by blast

theorem parse_buf_polaris_witness:
  "map_option (\<lambda>r. (map_of r ''stars'', map_of r ''fov''))
       (case parse_buf polaris_report of Inr r \<Rightarrow> Some r | Inl e \<Rightarrow> None)
     = Some (Some (PList [PStr ''Polaris'']),
             Some (PList [PFloat (Fin (3 / 2)),
                          PFloat (Fin (5404319552844595 / 4503599627370496))]))
   \<and> re_findall rx_star (star_lines [''Vega'', ''Deneb'', ''Vega''])
       = [''Vega'', ''Deneb'', ''Vega'']
   \<and> re_findall rx_constellation (constellation_lines [''Lyra'', ''Lyra''])
       = [''Lyra'', ''Lyra'']"
  using parse_buf_polaris [of "[''Vega'', ''Deneb'', ''Vega'']"]
    parse_buf_polaris [of "[''Lyra'', ''Lyra'']"]
  by (simp add: dbl_eval)

section \<open>The header field of view (C8)\<close>

lemma float_of_int_3600: "float_of_int 3600 = Inr (Fin 3600)"
  by (simp add: float_of_int_def dbl_eval)

lemma fov_side_int_float:
  assumes "map_of h n = Some (PInt a)" "map_of h s = Some (PFloat y)"
  shows "fov_side h n s =
           bindE (float_of_int a) (\<lambda>x.
           bindE (fl_round (fl_div (fl_mul x y) (Fin 3600)) 6) (\<lambda>r. Inr (PFloat r)))"
  using assms
  by (auto simp: fov_side_def getitem_def py_mul_def py_truediv_def py_round_def bindE_def
        float_of_int_3600 split: sum.splits)

lemma fov_4000:
  "bindE (float_of_int 4000) (\<lambda>x.
     bindE (fl_round (fl_div (fl_mul x (Fin 1)) (Fin 3600)) 6) (\<lambda>r. Inr (PFloat r)))
   = Inr (PFloat (to_double 1.111111))"
  by (simp add: float_of_int_def bindE_def fl_round_def dbl_eval)

lemma fov_3000:
  "bindE (float_of_int 3000) (\<lambda>x.
     bindE (fl_round (fl_div (fl_mul x (Fin 1)) (Fin 3600)) 6) (\<lambda>r. Inr (PFloat r)))
   = Inr (PFloat (to_double 0.833333))"
  by (simp add: float_of_int_def bindE_def fl_round_def dbl_eval)

text \<open>
  C8. A component of the header field of view, for an integer axis length and a float
  pixel size, is the float product divided by 3600 and rounded to 6 decimals. With
  \<open>NAXIS1 = 4000\<close>, \<open>NAXIS2 = 3000\<close> and both pixel sizes \<open>1.0\<close> the summary holds the
  field of view \<open>[1.111111, 0.833333]\<close>.
\<close>

theorem hdr_fov_rounded:
  "(map_of h n = Some (PInt a) \<and> map_of h s = Some (PFloat y) \<longrightarrow>
      fov_side h n s =
        bindE (float_of_int a) (\<lambda>x.
        bindE (fl_round (fl_div (fl_mul x y) (Fin 3600)) 6) (\<lambda>r. Inr (PFloat r))))
   \<and> (map_of h ''NAXIS1'' = Some (PInt 4000) \<and> map_of h ''SECPIX1'' = Some (PFloat (Fin 1))
       \<and> map_of h ''NAXIS2'' = Some (PInt 3000) \<and> map_of h ''SECPIX2'' = Some (PFloat (Fin 1))
       \<and> map_of h ''DEC'' = Some dec \<and> map_of h ''RA'' = Some ra \<longrightarrow>
      hdr_of h = Inr (PDict
        [(''loc'', PDict [(''dec'', dec), (''ra'', ra)]),
         (''obj'', get_default h ''OBJECT'' (PStr [])),
         (''fov'', PList [PFloat (to_double 1.111111), PFloat (to_double 0.833333)])]))"
proof (intro conjI impI)
  assume "map_of h n = Some (PInt a) \<and> map_of h s = Some (PFloat y)"
  then show "fov_side h n s =
        bindE (float_of_int a) (\<lambda>x.
        bindE (fl_round (fl_div (fl_mul x y) (Fin 3600)) 6) (\<lambda>r. Inr (PFloat r)))"
    by (simp add: fov_side_int_float)
next
  assume a: "map_of h ''NAXIS1'' = Some (PInt 4000) \<and> map_of h ''SECPIX1'' = Some (PFloat (Fin 1))
       \<and> map_of h ''NAXIS2'' = Some (PInt 3000) \<and> map_of h ''SECPIX2'' = Some (PFloat (Fin 1))
       \<and> map_of h ''DEC'' = Some dec \<and> map_of h ''RA'' = Some ra"
  have 1: "fov_side h ''NAXIS1'' ''SECPIX1'' = Inr (PFloat (to_double 1.111111))"
    using a fov_side_int_float [of h "''NAXIS1''" 4000 "''SECPIX1''" "Fin 1"] fov_4000 by simp
  have 2: "fov_side h ''NAXIS2'' ''SECPIX2'' = Inr (PFloat (to_double 0.833333))"
    using a fov_side_int_float [of h "''NAXIS2''" 3000 "''SECPIX2''" "Fin 1"] fov_3000 by simp
  show "hdr_of h = Inr (PDict
        [(''loc'', PDict [(''dec'', dec), (''ra'', ra)]),
         (''obj'', get_default h ''OBJECT'' (PStr [])),
         (''fov'', PList [PFloat (to_double 1.111111), PFloat (to_double 0.833333)])])"
    using a by (simp add: hdr_of_def getitem_def bindE_def 1 2)
qed

theorem hdr_fov_rounded_witness:
  "hdr_of example_header = Inr (PDict
        [(''loc'', PDict [(''dec'', PFloat (Fin 41)), (''ra'', PFloat (Fin 10))]),
         (''obj'', PStr ''M31''),
         (''fov'', PList [PFloat (Fin (5003999085567259 / 4503599627370496)),
                          PFloat (Fin (7505996376551075 / 9007199254740992))])])
   \<and> fov_side example_header ''NAXIS1'' ''SECPIX1'' = Inr (PFloat (to_double 1.111111))"
  using hdr_fov_rounded [of example_header "''NAXIS1''" 4000 "''SECPIX1''" "Fin 1"
      "PFloat (Fin 41)" "PFloat (Fin 10)"]
  by (simp add: example_header_def get_default_def fov_4000 dbl_eval)

section \<open>Keys of the records, and what the source-count pattern captures\<close>

lemma keys_update: "fst ` set (AList.update k v al) = insert k (fst ` set al)"
  by (induction al) auto

lemma map_of_dict_update_other:
  "k \<notin> fst ` set other \<Longrightarrow> map_of (dict_update d other) k = map_of d k"
  unfolding dict_update_def
  by (induction other arbitrary: d) (auto simp: update_conv')

lemma with_index_cases:
  "with_index b rv = Inr r \<Longrightarrow> r = rv \<or> (\<exists>i. r = AList.update ''index'' (PStr i) rv)"
  by (auto simp: with_index_def split: sum.splits if_splits)

lemma with_index_keys:
  assumes "with_index b rv = Inr r"
  shows "fst ` set r \<subseteq> insert ''index'' (fst ` set rv)"
proof -
  from with_index_cases [OF assms] show ?thesis
  proof
    assume "r = rv" then show ?thesis by auto
  next
    assume "\<exists>i. r = AList.update ''index'' (PStr i) rv"
    then obtain i where "r = AList.update ''index'' (PStr i) rv" ..
    then show ?thesis by (simp add: keys_update)
  qed
qed

lemma parse_buf_keys:
  assumes "parse_buf b = Inr r"
  shows "fst ` set r \<subseteq> {''fov'', ''field_center'', ''arcsec_pp'', ''constellations'', ''stars'',
                          ''ic'', ''ngc'', ''index''}"
proof -
  obtain rv where w: "with_index b rv = Inr r"
    and k: "fst ` set rv = {''fov'', ''field_center'', ''arcsec_pp'', ''constellations'', ''stars'', ''ic'', ''ngc''}"
    using assms
    unfolding parse_buf_def bindE_def
    by (auto split: sum.splits simp: keys_update)
  show ?thesis using with_index_keys [OF w] k by auto
qed

lemma parse_buf_no_verdict:
  "parse_buf b = Inr r \<Longrightarrow>
   map_of r ''solved'' = None \<and> map_of r ''file'' = None \<and> map_of r ''solve_time'' = None"
  by (drule parse_buf_keys) (auto simp: map_of_eq_None_iff)


lemma rmatch_lit_split:
  "rmatch (lit l @ r) t = Some x \<Longrightarrow> \<exists>u. t = l @ u \<and> rmatch r u = Some x"
proof (induction l arbitrary: t)
  case Nil
  then show ?case by (simp add: lit_def)
next
  case (Cons c l)
  then show ?case by (cases t) (auto simp: lit_def split: if_splits)
qed

lemma rmatch_star_close:
  "rmatch (Star p # Close # r) u = Some (ms, e) \<Longrightarrow>
   \<exists>d v ms'. u = d @ v \<and> list_all (cls_ok p) d \<and> ms = v # ms' \<and> rmatch r v = Some (ms', e)"
proof (induction u)
  case Nil
  then show ?case by auto
next
  case (Cons c u)
  show ?case
  proof (cases "cls_ok p c \<and> rmatch (Star p # Close # r) u \<noteq> None")
    case True
    then have "rmatch (Star p # Close # r) u = Some (ms, e)"
      using Cons.prems by auto
    from Cons.IH [OF this] obtain d v ms' where
      "u = d @ v" "list_all (cls_ok p) d" "ms = v # ms'" "rmatch r v = Some (ms', e)" by blast
    then have "c # u = (c # d) @ v \<and> list_all (cls_ok p) (c # d) \<and> ms = v # ms'
                \<and> rmatch r v = Some (ms', e)"
      using True by simp
    then show ?thesis by blast
  next
    case False
    then have "rmatch (Close # r) (c # u) = Some (ms, e)"
      using Cons.prems by (auto split: if_splits option.splits)
    then have "c # u = [] @ (c # u) \<and> list_all (cls_ok p) [] \<and> (\<exists>ms'. ms = (c # u) # ms'
                \<and> rmatch r (c # u) = Some (ms', e))"
      by auto
    then show ?thesis by blast
  qed
qed

lemma rmatch_plus_close:
  assumes "rmatch (Plus p # Close # r) u = Some (ms, e)"
  shows "\<exists>d v ms'. u = d @ v \<and> d \<noteq> [] \<and> list_all (cls_ok p) d \<and> ms = v # ms'
            \<and> rmatch r v = Some (ms', e)"
proof (cases u)
  case Nil
  then show ?thesis using assms by simp
next
  case (Cons c u')
  then have c: "cls_ok p c" and "rmatch (Star p # Close # r) u' = Some (ms, e)"
    using assms by (auto split: if_splits)
  from rmatch_star_close [OF this(2)] obtain d v ms' where
    "u' = d @ v" "list_all (cls_ok p) d" "ms = v # ms'" "rmatch r v = Some (ms', e)" by blast
  then have "u = (c # d) @ v \<and> c # d \<noteq> [] \<and> list_all (cls_ok p) (c # d) \<and> ms = v # ms'
              \<and> rmatch r v = Some (ms', e)"
    using c Cons by simp
  then show ?thesis by blast
qed

lemma re_search_match:
  "re_search r s = Some g \<Longrightarrow> \<exists>t ms e. rmatch r t = Some (ms, e) \<and> g = groups ms"
  by (induction s) (auto split: option.splits)

lemma rx_sources_group:
  assumes "re_search rx_sources s = Some g"
  shows "\<exists>d. g = [d] \<and> d \<noteq> [] \<and> list_all digit d"
proof -
  obtain t ms e where m: "rmatch rx_sources t = Some (ms, e)" and g: "g = groups ms"
    using re_search_match [OF assms] by blast
  have "rmatch (lit ''simplexy: found '' @ [Open, Plus Digit, Close] @ lit '' sources'') t
          = Some (ms, e)"
    using m unfolding rx_sources_def .
  from rmatch_lit_split [OF this]
  obtain u where "rmatch ([Open, Plus Digit, Close] @ lit '' sources'') u = Some (ms, e)"
    by blast
  then obtain ms1 where ms: "ms = u # ms1"
    and "rmatch (Plus Digit # Close # lit '' sources'') u = Some (ms1, e)"
    by auto
  from rmatch_plus_close [OF this(2)] obtain d v ms2 where
    d: "u = d @ v" "d \<noteq> []" "list_all (cls_ok Digit) d" "ms1 = v # ms2"
    and "rmatch (lit '' sources'') v = Some (ms2, e)" by blast
  then have "ms2 = []"
    using rmatch_lit_split [of "'' sources''" "[]" v "(ms2, e)"] by auto
  then have "g = [d]" using g ms d by simp
  moreover have "list_all digit d" using d(3) by (simp add: list_all_iff)
  ultimately show ?thesis using d(2) by blast
qed

lemma with_sources_count:
  assumes "re_search rx_sources s = Some g"
  shows "\<exists>d. g = [d] \<and> count_fits s = (length d \<le> max_str_digits)
           \<and> with_sources (re_search rx_sources s) rv =
               (if length d \<le> max_str_digits
                then Inr (AList.update ''sources'' (PInt (int (nat_of_digits d))) rv)
                else Inl ValueError)"
proof -
  from rx_sources_group [OF assms] obtain d where "g = [d]" "d \<noteq> []" "list_all digit d" by blast
  then show ?thesis
    using assms by (simp add: with_sources_def group1_def py_int_def bindE_def count_fits_def)
qed

lemma with_sources_cases:
  assumes "with_sources (re_search rx_sources s) rv = Inr rv2"
  shows "rv2 = rv \<or> (\<exists>n. rv2 = AList.update ''sources'' (PInt n) rv)"
proof (cases "re_search rx_sources s")
  case None
  then show ?thesis using assms by (simp add: with_sources_def)
next
  case (Some g)
  from with_sources_count [OF this, of rv] show ?thesis
    using assms by (auto split: if_splits)
qed

lemma with_sources_fits:
  assumes "count_fits s"
  shows "\<exists>rv2. with_sources (re_search rx_sources s) rv = Inr rv2"
proof (cases "re_search rx_sources s")
  case None
  then show ?thesis by (simp add: with_sources_def)
next
  case (Some g)
  from with_sources_count [OF this, of rv] show ?thesis
    using assms by auto
qed

lemma with_sources_long:
  assumes "\<not> count_fits s"
  shows "with_sources (re_search rx_sources s) rv = Inl ValueError"
proof (cases "re_search rx_sources s")
  case None
  then show ?thesis using assms by (simp add: count_fits_def)
next
  case (Some g)
  from with_sources_count [OF this, of rv] show ?thesis
    using assms by auto
qed

lemma with_hdr_cases:
  "with_hdr h rv = Inr rv' \<Longrightarrow> rv' = rv \<or> (\<exists>v. hdr_of h = Inr v \<and> rv' = AList.update ''hdr'' v rv)"
  by (auto simp: with_hdr_def split: sum.splits if_splits)

text \<open>What the source-count pattern finds in a text that opens with a count.\<close>

lemma rmatch_star_digits:
  "list_all digit d \<Longrightarrow> rmatch (Star Digit # r) s = Some m \<Longrightarrow>
   rmatch (Star Digit # r) (d @ s) = Some m"
  by (induction d) auto

lemma rx_sources_found:
  assumes "d \<noteq> []" and "list_all digit d"
  shows "re_search rx_sources (''simplexy: found '' @ d @ '' sources'' @ t) = Some [d]"
proof -
  define v where "v = '' sources'' @ t"
  obtain c d' where d: "d = c # d'" using assms(1) by (cases d) auto
  have "rmatch (Star Digit # Close # lit '' sources'') v = Some ([v], t)"
    by (simp add: v_def lit_def digit_def)
  then have "rmatch (Star Digit # Close # lit '' sources'') (d' @ v) = Some ([v], t)"
    using assms(2) d by (simp add: rmatch_star_digits)
  then have "rmatch rx_sources (''simplexy: found '' @ d @ v) = Some ([d @ v, v], t)"
    using assms(2) d by (simp add: rx_sources_def lit_def)
  then have "re_search rx_sources (''simplexy: found '' @ d @ v) = Some (groups [d @ v, v])"
    by simp
  then show ?thesis by (simp add: v_def)
qed

lemma contains_append: "contains sub b \<Longrightarrow> contains sub (a @ b)"
  by (induction a) auto

lemma sevens: "list_all digit (replicate n (CHR ''7''))"
  by (induction n) (auto simp: digit_def)

lemma long_count_searches:
  "re_search rx_sources long_count_report = Some [replicate 4301 (CHR ''7'')]"
  "contains ''Did not solve'' long_count_report"
  "\<not> count_fits long_count_report"
proof -
  define d where "d = replicate 4301 (CHR ''7'')"
  have n: "d \<noteq> []" and l: "length d = 4301" by (simp_all add: d_def)
  have g: "list_all digit d" unfolding d_def by (rule sevens)
  have r: "long_count_report = ''simplexy: found '' @ d @ '' sources'' @ ''\<newline>Did not solve\<newline>''"
    by (simp add: long_count_report_def d_def)
  show s: "re_search rx_sources long_count_report = Some [replicate 4301 (CHR ''7'')]"
    unfolding r using rx_sources_found [OF n g] by (simp only: d_def)
  have "contains ''Did not solve'' ('' sources\<newline>Did not solve\<newline>'')" by simp
  then have "contains ''Did not solve'' ((''simplexy: found '' @ d) @ '' sources\<newline>Did not solve\<newline>'')"
    by (rule contains_append)
  then show "contains ''Did not solve'' long_count_report"
    by (simp add: long_count_report_def d_def)
  show "\<not> count_fits long_count_report"
    unfolding count_fits_def s by (simp add: max_str_digits_def)
qed

section \<open>The verdict (C2)\<close>

lemma solve_result_unfold:
  assumes "fl_round (fl_sub t2 t1) 3 = Inr dt"
    and "with_hdr h (base_record img dt) = Inr rv1"
    and "with_sources (re_search rx_sources out) rv1 = Inr rv2"
  shows "solve_result img t1 t2 h out =
           (if contains ''Did not solve'' out then Inr rv2
            else bindE (parse_buf out) (\<lambda>p.
                   Inr (dict_update (AList.update ''solved'' (PBool True) rv2) p)))"
  using assms by (simp add: solve_result_def bindE_def base_record_def)

lemma solve_result_long_count:
  assumes "fl_round (fl_sub t2 t1) 3 = Inr dt"
    and "with_hdr h (base_record img dt) = Inr rv1"
    and "\<not> count_fits out"
  shows "solve_result img t1 t2 h out = Inl ValueError"
  using assms(1,2) with_sources_long [OF assms(3), of rv1]
  by (simp add: solve_result_def bindE_def base_record_def)

lemma verdict_kept:
  assumes "with_hdr h (base_record img dt) = Inr rv1"
    and "with_sources (re_search rx_sources out) rv1 = Inr rv2"
  shows "map_of rv2 ''solved'' = Some (PBool False) \<and> map_of rv2 ''file'' = Some (PStr img)"
proof -
  have 1: "map_of rv1 ''solved'' = Some (PBool False) \<and> map_of rv1 ''file'' = Some (PStr img)"
    using with_hdr_cases [OF assms(1)] by (auto simp: base_record_def update_conv')
  have "rv2 = rv1 \<or> (\<exists>n. rv2 = AList.update ''sources'' (PInt n) rv1)"
    using with_sources_cases [OF assms(2)] .
  then show ?thesis using 1 by (auto simp: update_conv')
qed

lemma verdict_when_reached:
  assumes "fl_round (fl_sub t2 t1) 3 = Inr dt"
    and "with_hdr h (base_record img dt) = Inr rv1"
    and "with_sources (re_search rx_sources out) rv1 = Inr rv2"
  shows "(contains ''Did not solve'' out \<longrightarrow>
            (\<exists>rv. solve_result img t1 t2 h out = Inr rv \<and> map_of rv ''solved'' = Some (PBool False)))
       \<and> ((\<exists>rv. solve_result img t1 t2 h out = Inr rv \<and> map_of rv ''solved'' = Some (PBool True))
            \<longleftrightarrow> \<not> contains ''Did not solve'' out \<and> (\<exists>p. parse_buf out = Inr p))
       \<and> (\<forall>rv. solve_result img t1 t2 h out = Inr rv \<longrightarrow>
            map_of rv ''solved'' = Some (PBool True) \<or> map_of rv ''solved'' = Some (PBool False))
       \<and> (\<forall>rv. solve_result img t1 t2 h out = Inr rv \<and> \<not> contains ''Did not solve'' out \<longrightarrow>
            (\<exists>p. parse_buf out = Inr p))"
proof -
  note u = solve_result_unfold [OF assms]
  note k = verdict_kept [OF assms(2,3)]
  show ?thesis
  proof (cases "contains ''Did not solve'' out")
    case True
    then show ?thesis using u k by simp
  next
    case False
    show ?thesis
    proof (cases "parse_buf out")
      case (Inl e)
      then show ?thesis using u False by (simp add: bindE_def)
    next
      case (Inr p)
      have "map_of (dict_update (AList.update ''solved'' (PBool True) rv2) p) ''solved''
              = Some (PBool True)"
        using parse_buf_no_verdict [OF Inr]
        by (subst map_of_dict_update_other) (auto simp: map_of_eq_None_iff update_conv')
      then show ?thesis using u False Inr by (simp add: bindE_def)
    qed
  qed
qed

lemma solve_result_reached:
  assumes "solve_result img t1 t2 h out = Inr rv"
  shows "\<exists>dt rv1 rv2. fl_round (fl_sub t2 t1) 3 = Inr dt
           \<and> with_hdr h (base_record img dt) = Inr rv1
           \<and> with_sources (re_search rx_sources out) rv1 = Inr rv2"
  using assms
  by (auto simp: solve_result_def bindE_def base_record_def split: sum.splits)

text \<open>
  C2, as the code has it. Every record that the second half of \<^verbatim>\<open>solve_image\<close> returns
  has \<open>solved = True\<close> exactly when the text lacks the marker \<^verbatim>\<open>Did not solve\<close> and
  \<^verbatim>\<open>parse_buf\<close> succeeds on it, and \<open>solved = False\<close> exactly when the text has the
  marker. Whenever the steps before the verdict succeed (rounding the elapsed time, the
  header summary) and the source count of the text, if it has one, has at most 4300
  digits, a text with the marker does give a record, with \<open>solved = False\<close>, whether or
  not its mandatory fields parse; and a record with \<open>solved = True\<close> is returned exactly
  when the text lacks the marker and \<^verbatim>\<open>parse_buf\<close> succeeds. With a longer source count
  the conversion of the count raises \<^verbatim>\<open>ValueError\<close> before the marker is looked for.
\<close>

theorem solved_iff_no_marker_and_parsed:
  "(\<forall>rv. solve_result img t1 t2 h out = Inr rv \<longrightarrow>
      (map_of rv ''solved'' = Some (PBool True)
         \<longleftrightarrow> \<not> contains ''Did not solve'' out \<and> (\<exists>p. parse_buf out = Inr p))
      \<and> (map_of rv ''solved'' = Some (PBool False) \<longleftrightarrow> contains ''Did not solve'' out))
   \<and> (fl_round (fl_sub t2 t1) 3 = Inr dt \<and> with_hdr h (base_record img dt) = Inr rv1
        \<and> count_fits out \<longrightarrow>
        (contains ''Did not solve'' out \<longrightarrow>
           (\<exists>rv. solve_result img t1 t2 h out = Inr rv
                \<and> map_of rv ''solved'' = Some (PBool False)))
        \<and> ((\<exists>rv. solve_result img t1 t2 h out = Inr rv
                 \<and> map_of rv ''solved'' = Some (PBool True))
             \<longleftrightarrow> \<not> contains ''Did not solve'' out \<and> (\<exists>p. parse_buf out = Inr p)))
   \<and> (fl_round (fl_sub t2 t1) 3 = Inr dt \<and> with_hdr h (base_record img dt) = Inr rv1
        \<and> \<not> count_fits out \<longrightarrow>
        solve_result img t1 t2 h out = Inl ValueError)"
proof (intro conjI allI impI)
  fix rv
  assume r: "solve_result img t1 t2 h out = Inr rv"
  from solve_result_reached [OF r] obtain dt' rv1' rv2' where
    "fl_round (fl_sub t2 t1) 3 = Inr dt'" "with_hdr h (base_record img dt') = Inr rv1'"
    "with_sources (re_search rx_sources out) rv1' = Inr rv2'"
    by blast
  note v = verdict_when_reached [OF this]
  show "map_of rv ''solved'' = Some (PBool True)
          \<longleftrightarrow> \<not> contains ''Did not solve'' out \<and> (\<exists>p. parse_buf out = Inr p)"
    using v r by auto
  show "map_of rv ''solved'' = Some (PBool False) \<longleftrightarrow> contains ''Did not solve'' out"
    using v r by auto
next
  assume a: "fl_round (fl_sub t2 t1) 3 = Inr dt \<and> with_hdr h (base_record img dt) = Inr rv1
               \<and> count_fits out"
    and m: "contains ''Did not solve'' out"
  from a obtain rv2 where "with_sources (re_search rx_sources out) rv1 = Inr rv2"
    using with_sources_fits [of out rv1] by blast
  then show "\<exists>rv. solve_result img t1 t2 h out = Inr rv
                \<and> map_of rv ''solved'' = Some (PBool False)"
    using a m verdict_when_reached [of t2 t1 dt h img rv1 out rv2] by blast
next
  assume a: "fl_round (fl_sub t2 t1) 3 = Inr dt \<and> with_hdr h (base_record img dt) = Inr rv1
               \<and> count_fits out"
  from a obtain rv2 where "with_sources (re_search rx_sources out) rv1 = Inr rv2"
    using with_sources_fits [of out rv1] by blast
  then show "(\<exists>rv. solve_result img t1 t2 h out = Inr rv
                 \<and> map_of rv ''solved'' = Some (PBool True))
             \<longleftrightarrow> \<not> contains ''Did not solve'' out \<and> (\<exists>p. parse_buf out = Inr p)"
    using a verdict_when_reached [of t2 t1 dt h img rv1 out rv2] by blast
next
  assume "fl_round (fl_sub t2 t1) 3 = Inr dt \<and> with_hdr h (base_record img dt) = Inr rv1
            \<and> \<not> count_fits out"
  then show "solve_result img t1 t2 h out = Inl ValueError"
    using solve_result_long_count by blast
qed

lemma marked_searches:
  "re_search rx_field_size marked_report = Some [''1.5'', ''1.2'']"
  "re_search rx_field_center marked_report = Some [''10.5'', ''-20.25'']"
  "re_search rx_pixel_scale marked_report = Some [''1.2'']"
  "contains ''Did not solve'' marked_report"
  "\<not> contains ''Did not solve'' polaris_report"
  "re_search rx_index marked_report = None"
  by (simp_all add: marked_report_def polaris_report_def rx_field_size_def rx_field_center_def
        rx_pixel_scale_def rx_index_def lit_def digit_def)

lemma examples_fit:
  "count_fits marked_report"
  "count_fits polaris_report"
  by (simp_all add: count_fits_def marked_report_def polaris_report_def rx_sources_def lit_def)

lemma marked_parsed: "\<exists>p. parse_buf marked_report = Inr p"
  unfolding parse_buf_def with_index_def marked_searches
  by (simp add: groups_of_def group1_def bindE_def polaris_floats)

lemma one_second: "fl_round (fl_sub (Fin 1) (Fin 0)) 3 = Inr (Fin 1)"
  by (simp add: fl_sub_def fl_round_def dbl_eval)

lemma no_header: "with_hdr [] rv = Inr rv"
  by (simp add: with_hdr_def hdr_of_def getitem_def bindE_def)

lemma long_count_result:
  "solve_result ''a.fits'' (Fin 0) (Fin 1) [] long_count_report = Inl ValueError"
  using solve_result_long_count [OF one_second no_header long_count_searches(3)] .

lemma long_count_image:
  "solve_image (scripted_os (\<lambda>f. Some long_count_report)) ''a.fits'' False False [] small_world
     = (Inl ValueError, small_world\<lparr>ticks := 2\<rparr>)"
  by (simp add: solve_image_def bindIO_def return_def mkdtemp_def pjoin_def dir_prefix_def
        solver_args_of_def fits_header_of_def monotonic_def run_stdout_def rm_rf_def listdir_def
        child_def below_def removedirs_def rmdir_def unlink_def is_file_def path_split_def
        rstrip_slash_def pass_OSError_def write_file_def read_file_def prune_parents.simps
        scripted_os_def small_world_def Let_def long_count_result)

text \<open>
  C2 as stated fails: a report that has the marker and a source count of 4301 digits
  gives no record with \<open>solved = False\<close>; the conversion of the count, which comes
  before the test for the marker, raises \<^verbatim>\<open>ValueError\<close>, in the second half of
  \<^verbatim>\<open>solve_image\<close> and so in \<^verbatim>\<open>solve_image\<close> itself.
\<close>

theorem long_count_counterexample:
  "contains ''Did not solve'' long_count_report
   \<and> re_search rx_sources long_count_report = Some [replicate 4301 (CHR ''7'')]
   \<and> solve_result ''a.fits'' (Fin 0) (Fin 1) [] long_count_report = Inl ValueError
   \<and> fst (solve_image (scripted_os (\<lambda>f. Some long_count_report)) ''a.fits'' False False []
            small_world) = Inl ValueError"
  by (simp only: long_count_searches long_count_result long_count_image fst_conv simp_thms)

theorem solved_iff_no_marker_and_parsed_witness:
  "contains ''Did not solve'' marked_report
   \<and> count_fits marked_report
   \<and> (\<exists>p. parse_buf marked_report = Inr p)
   \<and> (\<exists>rv. solve_result ''a.fits'' (Fin 0) (Fin 1) [] marked_report = Inr rv
          \<and> map_of rv ''solved'' = Some (PBool False))
   \<and> (\<exists>rv. solve_result ''a.fits'' (Fin 0) (Fin 1) [] polaris_report = Inr rv
          \<and> map_of rv ''solved'' = Some (PBool True))"
  using solved_iff_no_marker_and_parsed
      [where img = "''a.fits''" and out = marked_report and ?t1.0 = "Fin 0" and ?t2.0 = "Fin 1"
         and h = "[]" and dt = "Fin 1" and ?rv1.0 = "base_record ''a.fits'' (Fin 1)"]
    solved_iff_no_marker_and_parsed
      [where img = "''a.fits''" and out = polaris_report and ?t1.0 = "Fin 0" and ?t2.0 = "Fin 1"
         and h = "[]" and dt = "Fin 1" and ?rv1.0 = "base_record ''a.fits'' (Fin 1)"]
    one_second no_header [of "base_record ''a.fits'' (Fin 1)"]
    marked_searches(4,5) marked_parsed polaris_parsed examples_fit
  by blast

section \<open>A missing mandatory field (C1)\<close>

text \<open>The definitions with which the simplifier runs the system calls on an example.\<close>

lemmas os_eval =
  solve_image_def bindIO_def return_def mkdtemp_def pjoin_def dir_prefix_def solver_args_of_def
  fits_header_of_def monotonic_def run_stdout_def rm_rf_def listdir_def child_def below_def
  removedirs_def rmdir_def unlink_def is_file_def path_split_def rstrip_slash_def
  pass_OSError_def write_file_def read_file_def prune_parents.simps scripted_os_def
  small_world_def Let_def

lemma py_float_err: "py_float s = Inl e \<Longrightarrow> e = ValueError"
  by (auto simp: py_float_def split: list.splits if_splits option.splits)

lemma floats_err: "floats g = Inl e \<Longrightarrow> e = ValueError"
  by (induction g arbitrary: e) (auto simp: bindE_def split: sum.splits dest: py_float_err)

lemma parse_buf_no_size:
  "re_search rx_field_size out = None \<Longrightarrow> parse_buf out = Inl AttributeError"
  by (simp add: parse_buf_def bindE_def groups_of_def)

lemma parse_buf_no_center:
  "re_search rx_field_size out = Some g \<Longrightarrow> floats g = Inr fov \<Longrightarrow>
   re_search rx_field_center out = None \<Longrightarrow> parse_buf out = Inl AttributeError"
  by (simp add: parse_buf_def bindE_def groups_of_def)

lemma parse_buf_no_scale:
  "re_search rx_field_size out = Some g \<Longrightarrow> floats g = Inr fov \<Longrightarrow>
   re_search rx_field_center out = Some tmp \<Longrightarrow> floats tmp = Inr fc \<Longrightarrow>
   re_search rx_pixel_scale out = None \<Longrightarrow> parse_buf out = Inl AttributeError"
  by (simp add: parse_buf_def bindE_def groups_of_def group1_def)

lemma parse_buf_missing:
  assumes "re_search rx_field_size out = None \<or> re_search rx_field_center out = None
             \<or> re_search rx_pixel_scale out = None"
  shows "parse_buf out = Inl AttributeError \<or> parse_buf out = Inl ValueError"
proof (cases "re_search rx_field_size out")
  case None
  then show ?thesis by (simp add: parse_buf_no_size)
next
  case g: (Some g)
  show ?thesis
  proof (cases "floats g")
    case (Inl e)
    then show ?thesis
      using g floats_err [OF Inl] by (simp add: parse_buf_def bindE_def groups_of_def)
  next
    case fov: (Inr fov)
    show ?thesis
    proof (cases "re_search rx_field_center out")
      case None
      then show ?thesis using g fov by (simp add: parse_buf_no_center)
    next
      case tmp: (Some tmp)
      show ?thesis
      proof (cases "floats tmp")
        case (Inl e)
        then show ?thesis
          using g fov tmp floats_err [OF Inl] by (simp add: parse_buf_def bindE_def groups_of_def)
      next
        case (Inr fc)
        then show ?thesis using g fov tmp assms by (simp add: parse_buf_no_scale)
      qed
    qed
  qed
qed

lemma solve_result_parse_error:
  assumes "\<not> contains ''Did not solve'' out" and "parse_buf out = Inl e"
  shows "\<exists>e'. solve_result img t1 t2 h out = Inl e'"
  using assms by (auto simp: solve_result_def bindE_def split: sum.splits)

lemma solve_image_returns_solve_result:
  assumes "solve_image sys img st dbg kw w = (Inr rv, w')"
  shows "\<exists>args f f' out t1 t2 h. solve_field sys args f = Some (f', out)
            \<and> solve_result img t1 t2 h out = Inr rv"
  using assms
  unfolding solve_image_def bindIO_def return_def run_stdout_def
  apply (auto split: prod.splits sum.splits option.splits)
  apply blast
  done

text \<open>
  C1, as the code has it. For a text without the marker \<^verbatim>\<open>Did not solve\<close> in which one
  of the three mandatory patterns is not found, \<^verbatim>\<open>parse_buf\<close> raises: an
  \<^verbatim>\<open>AttributeError\<close> when the field size is missing, when the field center is missing
  and the numbers of the field size convert, and when the pixel scale is missing and
  the numbers of the field size and of the field center convert; otherwise the
  \<^verbatim>\<open>ValueError\<close> of a number that does not convert. And \<^verbatim>\<open>solve_image\<close> returns no
  record: the second half raises whatever the header and the clock are, it raises the
  exception of \<^verbatim>\<open>parse_buf\<close> itself when the steps before the verdict succeed (the
  elapsed time, the header summary, a source count of at most 4300 digits), and the
  whole function never returns when the solver prints that text.
\<close>

theorem parse_failure_propagates:
  assumes "\<not> contains ''Did not solve'' out"
    and "re_search rx_field_size out = None \<or> re_search rx_field_center out = None
           \<or> re_search rx_pixel_scale out = None"
  shows "(parse_buf out = Inl AttributeError \<or> parse_buf out = Inl ValueError)
       \<and> (re_search rx_field_size out = None \<longrightarrow> parse_buf out = Inl AttributeError)
       \<and> (re_search rx_field_center out = None
            \<and> (\<exists>g fov. re_search rx_field_size out = Some g \<and> floats g = Inr fov)
          \<longrightarrow> parse_buf out = Inl AttributeError)
       \<and> (re_search rx_pixel_scale out = None
            \<and> (\<exists>g fov. re_search rx_field_size out = Some g \<and> floats g = Inr fov)
            \<and> (\<exists>tmp fc. re_search rx_field_center out = Some tmp \<and> floats tmp = Inr fc)
          \<longrightarrow> parse_buf out = Inl AttributeError)
       \<and> (\<exists>e. solve_result img t1 t2 h out = Inl e)
       \<and> (fl_round (fl_sub t2 t1) 3 = Inr dt \<and> with_hdr h (base_record img dt) = Inr rv1
            \<and> count_fits out \<longrightarrow>
            (\<exists>e. parse_buf out = Inl e \<and> solve_result img t1 t2 h out = Inl e))
       \<and> ((\<forall>args f f' out'. solve_field sys args f = Some (f', out') \<longrightarrow> out' = out) \<longrightarrow>
            (\<forall>rv w'. solve_image sys img st dbg kw w \<noteq> (Inr rv, w')))"
proof -
  note m = parse_buf_missing [OF assms(2)]
  then obtain e where e: "parse_buf out = Inl e" by blast
  have r: "\<exists>e'. solve_result img t1 t2 h out = Inl e'" for img t1 t2 h
    using solve_result_parse_error [OF assms(1) e] by blast
  have 4: "solve_result img t1 t2 h out = Inl e"
    if p: "fl_round (fl_sub t2 t1) 3 = Inr dt" "with_hdr h (base_record img dt) = Inr rv1"
      and c: "count_fits out"
  proof -
    obtain rv2 where "with_sources (re_search rx_sources out) rv1 = Inr rv2"
      using with_sources_fits [OF c, of rv1] by blast
    from solve_result_unfold [OF p this] show ?thesis
      using assms(1) e by (simp add: bindE_def)
  qed
  have 5: "solve_image sys img st dbg kw w \<noteq> (Inr rv, w')"
    if a: "\<forall>args f f' out'. solve_field sys args f = Some (f', out') \<longrightarrow> out' = out" for rv w'
  proof
    assume "solve_image sys img st dbg kw w = (Inr rv, w')"
    from solve_image_returns_solve_result [OF this] obtain args f f' out' t1 t2 h where
      "solve_field sys args f = Some (f', out')" "solve_result img t1 t2 h out' = Inr rv" by blast
    then have "solve_result img t1 t2 h out = Inr rv" using a by blast
    then show False using r [of img t1 t2 h] by auto
  qed
  show ?thesis
    using m e r 4 5 parse_buf_no_size parse_buf_no_center parse_buf_no_scale by blast
qed

lemma size_only_searches:
  "\<not> contains ''Did not solve'' size_only_report"
  "re_search rx_field_size size_only_report = Some [''1.5'', ''1.2'']"
  "re_search rx_field_center size_only_report = None"
  "count_fits size_only_report"
  by (simp_all add: size_only_report_def rx_field_size_def rx_field_center_def lit_def
        count_fits_def rx_sources_def)

lemma size_only_floats:
  "floats [''1.5'', ''1.2''] = Inr [PFloat (to_double 1.5), PFloat (to_double 1.2)]"
  by (simp add: bindE_def polaris_floats)

lemma size_only_parse: "parse_buf size_only_report = Inl AttributeError"
  unfolding parse_buf_def size_only_searches
  by (simp add: groups_of_def bindE_def polaris_floats)

lemma size_only_result:
  "solve_result ''a.fits'' (Fin 0) (Fin 1) [] size_only_report = Inl AttributeError"
proof -
  have "with_sources (re_search rx_sources size_only_report) (base_record ''a.fits'' (Fin 1))
          = Inr (base_record ''a.fits'' (Fin 1))"
    by (simp add: with_sources_def size_only_report_def rx_sources_def lit_def)
  from solve_result_unfold [OF one_second no_header this] show ?thesis
    by (simp add: size_only_searches size_only_parse bindE_def)
qed

lemma size_only_image:
  "solve_image (scripted_os (\<lambda>f. Some size_only_report)) ''a.fits'' False False [] small_world
     = (Inl AttributeError, small_world\<lparr>ticks := 2\<rparr>)"
  by (simp add: os_eval size_only_result)

text \<open>
  C1 as stated fails: a report with a field size and nothing else has no marker and no
  field center, and \<^verbatim>\<open>solve_image\<close> raises \<^verbatim>\<open>AttributeError\<close> instead of returning a
  record with \<open>solved = False\<close>.
\<close>

theorem parse_failure_counterexample:
  "\<not> contains ''Did not solve'' size_only_report
   \<and> re_search rx_field_center size_only_report = None
   \<and> parse_buf size_only_report = Inl AttributeError
   \<and> solve_result ''a.fits'' (Fin 0) (Fin 1) [] size_only_report = Inl AttributeError
   \<and> fst (solve_image (scripted_os (\<lambda>f. Some size_only_report)) ''a.fits'' False False []
            small_world) = Inl AttributeError"
  by (simp add: size_only_searches size_only_parse size_only_result size_only_image)

theorem parse_failure_propagates_witness:
  "\<not> contains ''Did not solve'' size_only_report
   \<and> re_search rx_field_size size_only_report = Some [''1.5'', ''1.2'']
   \<and> re_search rx_field_center size_only_report = None
   \<and> count_fits size_only_report
   \<and> parse_buf size_only_report = Inl AttributeError
   \<and> solve_result ''a.fits'' (Fin 0) (Fin 1) [] size_only_report = Inl AttributeError
   \<and> (\<forall>rv w'. solve_image (scripted_os (\<lambda>f. Some size_only_report)) ''a.fits'' False False []
                small_world \<noteq> (Inr rv, w'))"
proof -
  have s: "\<forall>args f f' out'.
          solve_field (scripted_os (\<lambda>f. Some size_only_report)) args f = Some (f', out')
            \<longrightarrow> out' = size_only_report"
    by (auto simp: scripted_os_def)
  note t = parse_failure_propagates [where out = size_only_report and ?t2.0 = "Fin 1"
        and ?t1.0 = "Fin 0" and dt = "Fin 1" and h = "[]" and img = "''a.fits''"
        and ?rv1.0 = "base_record ''a.fits'' (Fin 1)"
        and sys = "scripted_os (\<lambda>f. Some size_only_report)"
        and kw = "[]" and st = False and dbg = False and w = small_world,
        OF size_only_searches(1) disjI2 [OF disjI1 [OF size_only_searches(3)]]]
  have p: "parse_buf size_only_report = Inl AttributeError"
    using t size_only_searches size_only_floats by blast
  have "\<exists>e. parse_buf size_only_report = Inl e
          \<and> solve_result ''a.fits'' (Fin 0) (Fin 1) [] size_only_report = Inl e"
    using t size_only_searches one_second no_header by blast
  then have r: "solve_result ''a.fits'' (Fin 0) (Fin 1) [] size_only_report = Inl AttributeError"
    using p by auto
  have "\<forall>rv w'. solve_image (scripted_os (\<lambda>f. Some size_only_report)) ''a.fits'' False False []
                  small_world \<noteq> (Inr rv, w')"
    using t s by blast
  then show ?thesis using p r size_only_searches by blast
qed

section \<open>The header summary (C4)\<close>

lemma float_of_int_err: "float_of_int n = Inl e \<Longrightarrow> e = OverflowError"
  by (auto simp: float_of_int_def split: pyfloat.splits)

lemma as_float_err: "as_float v = Some (Inl e) \<Longrightarrow> e = OverflowError"
  by (cases v) (auto dest: float_of_int_err)

lemma py_mul_err: "py_mul a b = Inl e \<Longrightarrow> e \<noteq> KeyError"
  unfolding py_mul_def bindE_def
  by (auto split: option.splits sum.splits pyval.splits dest: as_float_err)

lemma py_truediv_err: "py_truediv a b = Inl e \<Longrightarrow> e \<noteq> KeyError"
  unfolding py_truediv_def bindE_def
  by (auto split: option.splits sum.splits pyfloat.splits if_splits dest: as_float_err)

lemma fl_round_err: "fl_round x n = Inl e \<Longrightarrow> e = OverflowError"
  by (auto simp: fl_round_def split: pyfloat.splits)

lemma py_round_err: "py_round v n = Inl e \<Longrightarrow> e \<noteq> KeyError"
  unfolding py_round_def bindE_def
  by (auto split: option.splits sum.splits pyval.splits dest: fl_round_err)

lemma fov_side_KeyError:
  "fov_side h n s = Inl KeyError \<longleftrightarrow> map_of h n = None \<or> map_of h s = None"
  unfolding fov_side_def getitem_def bindE_def
  by (auto split: option.splits sum.splits dest: py_mul_err py_truediv_err py_round_err)

lemma hdr_of_Inr:
  assumes "hdr_of h = Inr v"
  shows "\<exists>dec ra f1 f2. map_of h ''DEC'' = Some dec \<and> map_of h ''RA'' = Some ra
           \<and> fov_side h ''NAXIS1'' ''SECPIX1'' = Inr f1
           \<and> fov_side h ''NAXIS2'' ''SECPIX2'' = Inr f2
           \<and> v = PDict [(''loc'', PDict [(''dec'', dec), (''ra'', ra)]),
                        (''obj'', get_default h ''OBJECT'' (PStr [])),
                        (''fov'', PList [f1, f2])]"
  using assms
  by (auto simp: hdr_of_def getitem_def bindE_def split: option.splits sum.splits)

lemma fov_side_present:
  "fov_side h n s = Inr v \<Longrightarrow> map_of h n \<noteq> None \<and> map_of h s \<noteq> None"
  by (auto simp: fov_side_def getitem_def bindE_def split: option.splits)

lemma hdr_of_KeyError:
  "hdr_of h = Inl KeyError \<Longrightarrow> \<exists>k \<in> set six_keys. map_of h k = None"
  unfolding hdr_of_def getitem_def bindE_def six_keys_def
  by (auto split: option.splits sum.splits simp: fov_side_KeyError)

lemma hdr_of_early_keys:
  "map_of h ''DEC'' = None \<or> map_of h ''RA'' = None \<or> map_of h ''NAXIS1'' = None
     \<or> map_of h ''SECPIX1'' = None \<Longrightarrow> hdr_of h = Inl KeyError"
  unfolding hdr_of_def getitem_def bindE_def fov_side_def
  by (auto split: option.splits sum.splits)

lemma hdr_of_late_keys:
  assumes "\<exists>k \<in> set six_keys. map_of h k = None"
  shows "hdr_of h = Inl KeyError
         \<or> (\<exists>e. e \<noteq> KeyError \<and> fov_side h ''NAXIS1'' ''SECPIX1'' = Inl e \<and> hdr_of h = Inl e)"
proof (cases "map_of h ''DEC'' = None \<or> map_of h ''RA'' = None \<or> map_of h ''NAXIS1'' = None
     \<or> map_of h ''SECPIX1'' = None")
  case True
  then show ?thesis using hdr_of_early_keys by blast
next
  case False
  then have l: "map_of h ''NAXIS2'' = None \<or> map_of h ''SECPIX2'' = None"
    using assms by (auto simp: six_keys_def)
  then have k: "fov_side h ''NAXIS2'' ''SECPIX2'' = Inl KeyError"
    by (simp add: fov_side_KeyError)
  show ?thesis
  proof (cases "fov_side h ''NAXIS1'' ''SECPIX1''")
    case (Inl e)
    then have "e \<noteq> KeyError" using False fov_side_KeyError [of h "''NAXIS1''" "''SECPIX1''"] by auto
    moreover have "hdr_of h = Inl e"
      using False Inl by (auto simp: hdr_of_def getitem_def bindE_def)
    ultimately show ?thesis using Inl by blast
  next
    case (Inr f1)
    then have "hdr_of h = Inl KeyError"
      using False k by (auto simp: hdr_of_def getitem_def bindE_def)
    then show ?thesis by blast
  qed
qed

text \<open>
  C4, as the code has it. The summary depends on six keys, \<^verbatim>\<open>DEC\<close>, \<^verbatim>\<open>RA\<close>,
  \<^verbatim>\<open>NAXIS1\<close>, \<^verbatim>\<open>SECPIX1\<close>, \<^verbatim>\<open>NAXIS2\<close> and \<^verbatim>\<open>SECPIX2\<close>; \<^verbatim>\<open>OBJECT\<close> is optional and
  defaults to the empty string. When the record is returned and the six keys are
  present, it holds a complete summary (both coordinates, the object, both components
  of the field of view); when it is returned and one of the six is missing, it holds no
  summary at all. A missing \<^verbatim>\<open>DEC\<close>, \<^verbatim>\<open>RA\<close>, \<^verbatim>\<open>NAXIS1\<close> or \<^verbatim>\<open>SECPIX1\<close> always leaves
  the record as it was; a missing \<^verbatim>\<open>NAXIS2\<close> or \<^verbatim>\<open>SECPIX2\<close> does so unless the
  arithmetic on the first axis has raised before.
\<close>

theorem header_summary_all_or_nothing:
  "(with_hdr h rv = Inr rv' \<and> (\<forall>k \<in> set six_keys. map_of h k \<noteq> None) \<longrightarrow>
      (\<exists>dec ra f1 f2.
          map_of h ''DEC'' = Some dec \<and> map_of h ''RA'' = Some ra
          \<and> fov_side h ''NAXIS1'' ''SECPIX1'' = Inr f1 \<and> fov_side h ''NAXIS2'' ''SECPIX2'' = Inr f2
          \<and> rv' = AList.update ''hdr''
                (PDict [(''loc'', PDict [(''dec'', dec), (''ra'', ra)]),
                        (''obj'', get_default h ''OBJECT'' (PStr [])),
                        (''fov'', PList [f1, f2])]) rv))
   \<and> (with_hdr h rv = Inr rv' \<and> (\<exists>k \<in> set six_keys. map_of h k = None) \<longrightarrow> rv' = rv)
   \<and> (map_of h ''DEC'' = None \<or> map_of h ''RA'' = None \<or> map_of h ''NAXIS1'' = None
        \<or> map_of h ''SECPIX1'' = None \<longrightarrow> with_hdr h rv = Inr rv)
   \<and> ((\<exists>k \<in> set six_keys. map_of h k = None) \<longrightarrow>
        with_hdr h rv = Inr rv
        \<or> (\<exists>e. e \<noteq> KeyError \<and> fov_side h ''NAXIS1'' ''SECPIX1'' = Inl e \<and> with_hdr h rv = Inl e))"
proof (intro conjI impI)
  assume a: "with_hdr h rv = Inr rv' \<and> (\<forall>k \<in> set six_keys. map_of h k \<noteq> None)"
  then have "hdr_of h \<noteq> Inl KeyError" using hdr_of_KeyError by blast
  then obtain v where v: "hdr_of h = Inr v" "rv' = AList.update ''hdr'' v rv"
    using a by (auto simp: with_hdr_def split: sum.splits if_splits)
  from hdr_of_Inr [OF v(1)] v(2)
  show "\<exists>dec ra f1 f2.
          map_of h ''DEC'' = Some dec \<and> map_of h ''RA'' = Some ra
          \<and> fov_side h ''NAXIS1'' ''SECPIX1'' = Inr f1 \<and> fov_side h ''NAXIS2'' ''SECPIX2'' = Inr f2
          \<and> rv' = AList.update ''hdr''
                (PDict [(''loc'', PDict [(''dec'', dec), (''ra'', ra)]),
                        (''obj'', get_default h ''OBJECT'' (PStr [])),
                        (''fov'', PList [f1, f2])]) rv"
    by blast
next
  assume a: "with_hdr h rv = Inr rv' \<and> (\<exists>k \<in> set six_keys. map_of h k = None)"
  have "\<not> (\<exists>v. hdr_of h = Inr v)"
  proof
    assume "\<exists>v. hdr_of h = Inr v"
    then obtain v where "hdr_of h = Inr v" ..
    from hdr_of_Inr [OF this] obtain f1 f2 where
      "map_of h ''DEC'' \<noteq> None" "map_of h ''RA'' \<noteq> None"
      "fov_side h ''NAXIS1'' ''SECPIX1'' = Inr f1" "fov_side h ''NAXIS2'' ''SECPIX2'' = Inr f2"
      by auto
    then have "\<forall>k \<in> set six_keys. map_of h k \<noteq> None"
      using fov_side_present [of h "''NAXIS1''" "''SECPIX1''" f1]
        fov_side_present [of h "''NAXIS2''" "''SECPIX2''" f2]
      by (simp add: six_keys_def)
    then show False using a by blast
  qed
  then show "rv' = rv" using a by (auto simp: with_hdr_def split: sum.splits if_splits)
next
  assume "map_of h ''DEC'' = None \<or> map_of h ''RA'' = None \<or> map_of h ''NAXIS1'' = None
        \<or> map_of h ''SECPIX1'' = None"
  from hdr_of_early_keys [OF this] show "with_hdr h rv = Inr rv"
    by (simp add: with_hdr_def)
next
  assume "\<exists>k \<in> set six_keys. map_of h k = None"
  from hdr_of_late_keys [OF this]
  show "with_hdr h rv = Inr rv
        \<or> (\<exists>e. e \<noteq> KeyError \<and> fov_side h ''NAXIS1'' ''SECPIX1'' = Inl e \<and> with_hdr h rv = Inl e)"
    by (auto simp: with_hdr_def)
qed

lemma no_object_hdr:
  "hdr_of no_object_header = Inr (PDict
        [(''loc'', PDict [(''dec'', PFloat (Fin 41)), (''ra'', PFloat (Fin 10))]),
         (''obj'', PStr []),
         (''fov'', PList [PFloat (to_double 1.111111), PFloat (to_double 0.833333)])])"
proof -
  have 1: "fov_side no_object_header ''NAXIS1'' ''SECPIX1'' = Inr (PFloat (to_double 1.111111))"
    using fov_side_int_float [of no_object_header "''NAXIS1''" 4000 "''SECPIX1''" "Fin 1"] fov_4000
    by (simp add: no_object_header_def)
  have 2: "fov_side no_object_header ''NAXIS2'' ''SECPIX2'' = Inr (PFloat (to_double 0.833333))"
    using fov_side_int_float [of no_object_header "''NAXIS2''" 3000 "''SECPIX2''" "Fin 1"] fov_3000
    by (simp add: no_object_header_def)
  show ?thesis
    by (simp add: hdr_of_def getitem_def get_default_def bindE_def 1 2) (simp add: no_object_header_def)
qed

text \<open>
  C4 as stated fails: a header with the six keys and no \<^verbatim>\<open>OBJECT\<close> still gets its
  summary, with an empty object name.
\<close>

theorem header_summary_counterexample:
  "map_of no_object_header ''OBJECT'' = None
   \<and> with_hdr no_object_header (base_record ''a.fits'' (Fin 1)) =
       Inr (base_record ''a.fits'' (Fin 1) @
            [(''hdr'', PDict
               [(''loc'', PDict [(''dec'', PFloat (Fin 41)), (''ra'', PFloat (Fin 10))]),
                (''obj'', PStr []),
                (''fov'', PList [PFloat (to_double 1.111111), PFloat (to_double 0.833333)])])])"
  by (simp add: with_hdr_def no_object_hdr base_record_def) (simp add: no_object_header_def)

theorem header_summary_all_or_nothing_witness:
  "with_hdr no_object_header [] =
       Inr [(''hdr'', PDict
               [(''loc'', PDict [(''dec'', PFloat (Fin 41)), (''ra'', PFloat (Fin 10))]),
                (''obj'', PStr []),
                (''fov'', PList [PFloat (to_double 1.111111), PFloat (to_double 0.833333)])])]
   \<and> map_of [(''RA'', PFloat (Fin 10))] ''DEC'' = None
   \<and> with_hdr [(''RA'', PFloat (Fin 10))] [] = Inr []"
  using header_summary_all_or_nothing [of no_object_header "[]"
      "[(''hdr'', PDict
               [(''loc'', PDict [(''dec'', PFloat (Fin 41)), (''ra'', PFloat (Fin 10))]),
                (''obj'', PStr []),
                (''fov'', PList [PFloat (to_double 1.111111), PFloat (to_double 0.833333)])])]"]
    header_summary_all_or_nothing [of "[(''RA'', PFloat (Fin 10))]" "[]" "[]"]
  by (simp add: with_hdr_def no_object_hdr)

section \<open>Transcript mode (C10)\<close>

lemma transcript_record:
  assumes "test_file a" and "map_of (fsys w) f = Some (File b)" and "parse_buf b = Inr r"
  shows "solve_res_of sys a f w =
           (Inr (AList.update ''solve_time'' (PFloat (Fin 0)) (AList.update ''file'' (PStr f) r)), w)"
  using assms by (simp add: solve_res_of_def bindIO_def read_file_def bindE_def)

lemma transcript_record_no_verdict:
  assumes "parse_buf b = Inr r"
  shows "map_of (AList.update ''solve_time'' (PFloat (Fin 0)) (AList.update ''file'' (PStr f) r))
           ''solved'' = None"
  using parse_buf_no_verdict [OF assms] by (simp add: update_conv')

lemma main_loop_KeyError:
  assumes "solve_res_of sys a f w = (Inr rec, w')" and "map_of rec ''solved'' = None"
  shows "main_loop sys a (f # fs) acc w = (Inl KeyError, w')"
  using assms by (simp add: bindIO_def getitem_def)

text \<open>
  C10. In transcript mode a file whose content \<^verbatim>\<open>parse_buf\<close> accepts gives a record
  with the parsed fields, \<open>file\<close> and \<open>solve_time = 0.0\<close>, and without the key \<open>solved\<close>;
  the lookup of that key then raises \<^verbatim>\<open>KeyError\<close>, which ends the loop and \<^verbatim>\<open>main\<close>
  before anything is written, whatever the verbosity and the files that follow.
\<close>

theorem transcript_mode_KeyError:
  assumes "test_file a" and "map_of (fsys w) f = Some (File b)" and "parse_buf b = Inr r"
  shows "(\<exists>rec. solve_res_of sys a f w = (Inr rec, w)
            \<and> map_of rec ''solved'' = None
            \<and> map_of rec ''file'' = Some (PStr f)
            \<and> map_of rec ''solve_time'' = Some (PFloat (Fin 0))
            \<and> (\<forall>k. k \<noteq> ''file'' \<and> k \<noteq> ''solve_time'' \<longrightarrow> map_of rec k = map_of r k))
       \<and> main_loop sys a (f # fs) acc w = (Inl KeyError, w)
       \<and> (files a = f # fs \<longrightarrow> main sys a w = (Inl KeyError, w))"
proof -
  let ?rec = "AList.update ''solve_time'' (PFloat (Fin 0)) (AList.update ''file'' (PStr f) r)"
  have 1: "solve_res_of sys a f w = (Inr ?rec, w)" by (rule transcript_record [OF assms])
  have 2: "map_of ?rec ''solved'' = None" by (rule transcript_record_no_verdict [OF assms(3)])
  have 3: "main_loop sys a (f # fs) acc w = (Inl KeyError, w)" for acc
    by (rule main_loop_KeyError [OF 1 2])
  have 4: "files a = f # fs \<longrightarrow> main sys a w = (Inl KeyError, w)"
    using 3 [of "[]"] by (simp add: main_def bindIO_def)
  have 5: "map_of ?rec ''file'' = Some (PStr f) \<and> map_of ?rec ''solve_time'' = Some (PFloat (Fin 0))
            \<and> (\<forall>k. k \<noteq> ''file'' \<and> k \<noteq> ''solve_time'' \<longrightarrow> map_of ?rec k = map_of r k)"
    by (simp add: update_conv')
  show ?thesis using 1 2 3 4 5 by blast
qed

theorem transcript_mode_KeyError_witness:
  "test_file transcript_args
   \<and> map_of (fsys transcript_world) ''/out/polaris.txt'' = Some (File polaris_report)
   \<and> (\<exists>r. parse_buf polaris_report = Inr r)
   \<and> main (scripted_os (\<lambda>f. None)) transcript_args transcript_world = (Inl KeyError, transcript_world)"
proof -
  have t: "test_file transcript_args" by (simp add: transcript_args_def)
  have f: "map_of (fsys transcript_world) ''/out/polaris.txt'' = Some (File polaris_report)"
    by (simp add: transcript_world_def)
  have "files transcript_args = [''/out/polaris.txt'']" by (simp add: transcript_args_def)
  then show ?thesis
    using transcript_mode_KeyError [OF t f polaris_parsed, of "scripted_os (\<lambda>f. None)" "[]"] t f polaris_parsed
    by blast
qed

section \<open>A solver that cannot be started (C3)\<close>

lemma main_loop_append:
  "main_loop sys a (xs @ ys) acc w =
     bindIO (main_loop sys a xs acc) (\<lambda>acc'. main_loop sys a ys acc') w"
proof (induction xs arbitrary: acc w)
  case Nil
  show ?case by (simp add: bindIO_def return_def)
next
  case (Cons x xs)
  show ?case
    by (simp add: bindIO_def Cons.IH split: prod.splits sum.splits)
qed

lemma solve_image_launch_failure:
  assumes "mkdtemp sys w1 = (Inr wd, w2)"
    and "solve_field sys (solver_args_of wd kw img) (fsys w2) = None"
  shows "solve_image sys img st dbg kw w1 = (Inl OSError, w2\<lparr>ticks := Suc (ticks w2)\<rparr>)"
  using assms
  by (simp add: solve_image_def bindIO_def return_def fits_header_of_def monotonic_def
      run_stdout_def split: option.splits)

text \<open>
  C3, as the code has it. When the files before \<open>f\<close> have been processed and the solver
  cannot be started for \<open>f\<close>, the \<^verbatim>\<open>OSError\<close> of the launch leaves \<^verbatim>\<open>solve_image\<close>, the
  loop and \<^verbatim>\<open>main\<close>: no record is made for \<open>f\<close>, the files after it are not
  processed, nothing is written to the output, and the file system is the one before
  \<open>f\<close> plus the temporary directory just created.
\<close>

theorem launch_failure_aborts_batch:
  assumes "\<not> test_file a"
    and "main_loop sys a pre [] w = (Inr acc, w1)"
    and "mkdtemp sys w1 = (Inr wd, w2)"
    and "solve_field sys (solver_args_of wd [(''guess_scale'', KwBool True)] f) (fsys w2) = None"
  shows "solve_res_of sys a f w1 = (Inl OSError, w2\<lparr>ticks := Suc (ticks w2)\<rparr>)
       \<and> main_loop sys a (pre @ f # post) [] w = (Inl OSError, w2\<lparr>ticks := Suc (ticks w2)\<rparr>)
       \<and> (files a = pre @ f # post \<longrightarrow>
            main sys a w = (Inl OSError, w2\<lparr>ticks := Suc (ticks w2)\<rparr>))
       \<and> fsys (w2\<lparr>ticks := Suc (ticks w2)\<rparr>) = AList.update wd Dir (fsys w1)"
proof -
  have 1: "solve_res_of sys a f w1 = (Inl OSError, w2\<lparr>ticks := Suc (ticks w2)\<rparr>)"
    using assms(1) solve_image_launch_failure [OF assms(3,4)] by (simp add: solve_res_of_def)
  then have "main_loop sys a (f # post) acc w1 = (Inl OSError, w2\<lparr>ticks := Suc (ticks w2)\<rparr>)"
    by (simp add: bindIO_def)
  then have 2: "main_loop sys a (pre @ f # post) [] w = (Inl OSError, w2\<lparr>ticks := Suc (ticks w2)\<rparr>)"
    using assms(2) by (simp add: main_loop_append bindIO_def)
  then have 3: "files a = pre @ f # post \<longrightarrow>
            main sys a w = (Inl OSError, w2\<lparr>ticks := Suc (ticks w2)\<rparr>)"
    by (simp add: main_def bindIO_def)
  have 4: "fsys (w2\<lparr>ticks := Suc (ticks w2)\<rparr>) = AList.update wd Dir (fsys w1)"
    using assms(3) by (auto simp: mkdtemp_def Let_def split: option.splits if_splits)
  show ?thesis using 1 2 3 4 by blast
qed

lemma polaris_no_sources: "re_search rx_sources polaris_report = None"
  by (simp add: polaris_report_def rx_sources_def lit_def)

lemma polaris_result:
  "solve_result img (Fin (of_nat n)) (Fin (of_nat (Suc n))) [] polaris_report =
     bindE (parse_buf polaris_report) (\<lambda>p.
       Inr (dict_update (AList.update ''solved'' (PBool True) (base_record img (Fin 1))) p))"
proof -
  have t: "fl_round (fl_sub (Fin (of_nat (Suc n))) (Fin (of_nat n))) 3 = Inr (Fin 1)"
    by (simp add: fl_sub_def fl_round_def dbl_eval)
  have s: "with_sources (re_search rx_sources polaris_report) (base_record img (Fin 1))
             = Inr (base_record img (Fin 1))"
    by (simp add: polaris_no_sources with_sources_def)
  from solve_result_unfold [OF t no_header s] show ?thesis
    by (simp add: marked_searches)
qed

lemma blank_result:
  "solve_result img (Fin (of_nat n)) (Fin (of_nat (Suc n))) [] ''Did not solve\<newline>'' =
     Inr (base_record img (Fin 1))"
proof -
  have t: "fl_round (fl_sub (Fin (of_nat (Suc n))) (Fin (of_nat n))) 3 = Inr (Fin 1)"
    by (simp add: fl_sub_def fl_round_def dbl_eval)
  have s: "with_sources (re_search rx_sources ''Did not solve\<newline>'') (base_record img (Fin 1))
             = Inr (base_record img (Fin 1))"
    by (simp add: rx_sources_def lit_def with_sources_def)
  from solve_result_unfold [OF t no_header s] show ?thesis
    by simp
qed

text \<open>The facts with which the simplifier runs a batch of the examples.\<close>

lemmas batch_eval =
  main_def solve_res_of_def batch_args_def batch_script_def getitem_def os_eval
  polaris_result [of _ 0, simplified] polaris_result [of _ 2, simplified]
  polaris_result [of _ 3, simplified] polaris_result [of _ 4, simplified]
  blank_result [of _ 2, simplified] blank_result [of _ 0, simplified]
  polaris_parsed bindE_def dict_update_def base_record_def

lemma three_files_missing:
  "main (scripted_os batch_script) (batch_args 2 [''m31.fits'', ''missing.fits'', ''m33.fits''])
      small_world
   = (Inl OSError,
      \<lparr>fsys = [(''/tmp'', Dir), (''/out'', Dir), (''/tmp/astrometry_x3k9q2ab'', Dir)], ticks = 3\<rparr>)"
  by (simp add: batch_eval)

text \<open>
  C3 as stated fails: with three files of which the second cannot be started, at the
  highest inclusion level, \<^verbatim>\<open>main\<close> ends with \<^verbatim>\<open>OSError\<close> and no output file exists.
\<close>

theorem launch_failure_counterexample:
  "fst (main (scripted_os batch_script)
          (batch_args 2 [''m31.fits'', ''missing.fits'', ''m33.fits'']) small_world) = Inl OSError
   \<and> map_of (fsys (snd (main (scripted_os batch_script)
          (batch_args 2 [''m31.fits'', ''missing.fits'', ''m33.fits'']) small_world)))
        ''/out/result.json'' = None"
  by (simp add: three_files_missing)

lemma first_file_done:
  "main_loop (scripted_os batch_script) (batch_args 2 fs) [''m31.fits''] [] small_world
     = (Inr [[(''file'', PStr ''m31.fits''), (''solve_time'', PFloat (Fin 1)),
              (''solved'', PBool True),
              (''fov'', PList [PFloat (to_double 1.5), PFloat (to_double 1.2)]),
              (''field_center'',
                PDict [(''ra'', PFloat (to_double 10.5)), (''dec'', PFloat (to_double (- 20.25)))]),
              (''arcsec_pp'', PFloat (to_double 1.2)),
              (''constellations'', PList [PStr ''Ursa Minor'']),
              (''stars'', PList [PStr ''Polaris'']),
              (''ic'', PList []),
              (''ngc'', PList [])]],
        small_world\<lparr>ticks := 2\<rparr>)"
  by (simp add: batch_eval)

theorem launch_failure_aborts_batch_witness:
  "\<not> test_file (batch_args 2 [''m31.fits'', ''missing.fits'', ''m33.fits''])
   \<and> fst (main_loop (scripted_os batch_script)
            (batch_args 2 [''m31.fits'', ''missing.fits'', ''m33.fits'']) [''m31.fits''] []
            small_world) \<noteq> Inl OSError
   \<and> fst (mkdtemp (scripted_os batch_script) (small_world\<lparr>ticks := 2\<rparr>))
        = Inr ''/tmp/astrometry_x3k9q2ab''
   \<and> main (scripted_os batch_script)
        (batch_args 2 [''m31.fits'', ''missing.fits'', ''m33.fits'']) small_world
      = (Inl OSError,
         \<lparr>fsys = [(''/tmp'', Dir), (''/out'', Dir), (''/tmp/astrometry_x3k9q2ab'', Dir)],
          ticks = 3\<rparr>)"
proof -
  let ?a = "batch_args 2 [''m31.fits'', ''missing.fits'', ''m33.fits'']"
  let ?sys = "scripted_os batch_script"
  have t: "\<not> test_file ?a" by (simp add: batch_args_def)
  have m: "mkdtemp ?sys (small_world\<lparr>ticks := 2\<rparr>)
             = (Inr ''/tmp/astrometry_x3k9q2ab'',
                \<lparr>fsys = [(''/tmp'', Dir), (''/out'', Dir), (''/tmp/astrometry_x3k9q2ab'', Dir)],
                 ticks = 2\<rparr>)"
    by (simp add: os_eval)
  have s: "solve_field ?sys
             (solver_args_of ''/tmp/astrometry_x3k9q2ab'' [(''guess_scale'', KwBool True)]
                ''missing.fits'')
             (fsys \<lparr>fsys = [(''/tmp'', Dir), (''/out'', Dir), (''/tmp/astrometry_x3k9q2ab'', Dir)],
                 ticks = 2\<rparr>) = None"
    by (simp add: scripted_os_def batch_script_def solver_args_of_def)
  have f: "files ?a = [''m31.fits''] @ ''missing.fits'' # [''m33.fits'']"
    by (simp add: batch_args_def)
  have p: "fst (main_loop ?sys ?a [''m31.fits''] [] small_world) \<noteq> Inl OSError"
    by (simp only: first_file_done fst_conv) simp
  have m': "fst (mkdtemp ?sys (small_world\<lparr>ticks := 2\<rparr>)) = Inr ''/tmp/astrometry_x3k9q2ab''"
    by (simp only: m fst_conv)
  have "main ?sys ?a small_world
      = (Inl OSError,
         \<lparr>fsys = [(''/tmp'', Dir), (''/out'', Dir), (''/tmp/astrometry_x3k9q2ab'', Dir)],
          ticks = 2\<rparr>\<lparr>ticks := Suc (ticks \<lparr>fsys = [(''/tmp'', Dir), (''/out'', Dir),
             (''/tmp/astrometry_x3k9q2ab'', Dir)], ticks = 2\<rparr>)\<rparr>)"
    using launch_failure_aborts_batch [OF t first_file_done m s, of "[''m33.fits'']"] f
    by blast
  then have "main ?sys ?a small_world
      = (Inl OSError,
         \<lparr>fsys = [(''/tmp'', Dir), (''/out'', Dir), (''/tmp/astrometry_x3k9q2ab'', Dir)],
          ticks = 3\<rparr>)"
    by simp
  then show ?thesis using t p m' by blast
qed

section \<open>The inclusion policy (C9)\<close>

lemma solve_result_file:
  assumes "solve_result img t1 t2 h out = Inr rv"
  shows "map_of rv ''file'' = Some (PStr img) \<and> map_of rv ''solved'' \<noteq> None"
proof -
  obtain dt where dt: "fl_round (fl_sub t2 t1) 3 = Inr dt"
    using assms by (auto simp: solve_result_def bindE_def split: sum.splits)
  obtain rv1 where rv1: "with_hdr h (base_record img dt) = Inr rv1"
    using assms dt by (auto simp: solve_result_def bindE_def base_record_def split: sum.splits)
  obtain rv2 where rv2: "with_sources (re_search rx_sources out) rv1 = Inr rv2"
    using assms dt rv1
    by (auto simp: solve_result_def bindE_def base_record_def split: sum.splits)
  note u = solve_result_unfold [OF dt rv1 rv2]
  note k = verdict_kept [OF rv1 rv2]
  show ?thesis
  proof (cases "contains ''Did not solve'' out")
    case True
    then show ?thesis using u k assms by simp
  next
    case False
    then obtain p where p: "parse_buf out = Inr p"
      and rv: "rv = dict_update (AList.update ''solved'' (PBool True) rv2) p"
      using u assms by (auto simp: bindE_def split: sum.splits)
    have "''file'' \<notin> fst ` set p" "''solved'' \<notin> fst ` set p"
      using parse_buf_no_verdict [OF p] by (auto simp: map_of_eq_None_iff)
    then show ?thesis using k rv by (simp add: map_of_dict_update_other update_conv')
  qed
qed

lemma solve_image_file:
  assumes "solve_image sys img st dbg kw w = (Inr rv, w')"
  shows "map_of rv ''file'' = Some (PStr img) \<and> map_of rv ''solved'' \<noteq> None"
proof -
  have "\<exists>t1 t2 h out. solve_result img t1 t2 h out = Inr rv"
    using assms
    unfolding solve_image_def bindIO_def return_def
    by (auto split: prod.splits sum.splits)
  then show ?thesis using solve_result_file by blast
qed

lemma solve_res_of_file:
  assumes "solve_res_of sys a f w = (Inr r, w')" and "\<not> test_file a"
  shows "map_of r ''file'' = Some (PStr f)"
  using assms solve_image_file by (auto simp: solve_res_of_def)

lemma main_loop_run_each:
  "main_loop sys a fs acc w = (Inr out, w') \<Longrightarrow>
   \<exists>recs. run_each sys a fs w = (Inr recs, w') \<and> out = acc @ filter (keep a) recs
          \<and> (\<forall>r \<in> set recs. map_of r ''solved'' \<noteq> None)"
proof (induction fs arbitrary: acc w)
  case Nil
  then show ?case by (simp add: return_def)
next
  case (Cons f fs)
  from Cons.prems obtain r w1 where r: "solve_res_of sys a f w = (Inr r, w1)"
    by (auto simp: bindIO_def split: prod.splits sum.splits)
  from Cons.prems r obtain v where v: "map_of r ''solved'' = Some v"
    by (auto simp: bindIO_def getitem_def split: option.splits)
  have k: "keep a r = (truthy v \<or> 1 < verbose a)"
    using v by (simp add: keep_def solved_flag_def)
  have "main_loop sys a fs (if keep a r then acc @ [r] else acc) w1 = (Inr out, w')"
    using Cons.prems r v k by (simp add: bindIO_def getitem_def)
  from Cons.IH [OF this] obtain recs where
    recs: "run_each sys a fs w1 = (Inr recs, w')"
      "out = (if keep a r then acc @ [r] else acc) @ filter (keep a) recs"
      "\<forall>r \<in> set recs. map_of r ''solved'' \<noteq> None"
    by blast
  have "run_each sys a (f # fs) w = (Inr (r # recs), w')"
    using r recs(1) by (simp add: bindIO_def return_def)
  moreover have "out = acc @ filter (keep a) (r # recs)"
    using recs(2) by simp
  moreover have "\<forall>x \<in> set (r # recs). map_of x ''solved'' \<noteq> None"
    using recs(3) v by simp
  ultimately show ?case by blast
qed

lemma run_each_main_loop:
  "run_each sys a fs w = (Inr recs, w') \<Longrightarrow> \<forall>r \<in> set recs. map_of r ''solved'' \<noteq> None \<Longrightarrow>
   main_loop sys a fs acc w = (Inr (acc @ filter (keep a) recs), w')"
proof (induction fs arbitrary: acc w recs)
  case Nil
  then show ?case by (simp add: return_def)
next
  case (Cons f fs)
  from Cons.prems(1) obtain r w1 rs where r: "solve_res_of sys a f w = (Inr r, w1)"
    and rs: "run_each sys a fs w1 = (Inr rs, w')" and recs: "recs = r # rs"
    by (auto simp: bindIO_def return_def split: prod.splits sum.splits)
  obtain v where v: "map_of r ''solved'' = Some v"
    using Cons.prems(2) recs by auto
  have k: "keep a r = (truthy v \<or> 1 < verbose a)"
    using v by (simp add: keep_def solved_flag_def)
  have "main_loop sys a fs (if keep a r then acc @ [r] else acc) w1
          = (Inr ((if keep a r then acc @ [r] else acc) @ filter (keep a) rs), w')"
    using Cons.IH [OF rs] Cons.prems(2) recs by simp
  then show ?case using r v k recs by (simp add: bindIO_def getitem_def)
qed

lemma run_each_files:
  "run_each sys a fs w = (Inr recs, w') \<Longrightarrow> \<not> test_file a \<Longrightarrow>
   map (\<lambda>r. map_of r ''file'') recs = map (\<lambda>f. Some (PStr f)) fs"
proof (induction fs arbitrary: w recs)
  case Nil
  then show ?case by (simp add: return_def)
next
  case (Cons f fs)
  from Cons.prems(1) obtain r w1 rs where r: "solve_res_of sys a f w = (Inr r, w1)"
    and rs: "run_each sys a fs w1 = (Inr rs, w')" and recs: "recs = r # rs"
    by (auto simp: bindIO_def return_def split: prod.splits sum.splits)
  show ?case
    using Cons.IH [OF rs Cons.prems(2)] solve_res_of_file [OF r Cons.prems(2)] recs by simp
qed

lemma run_each_solved:
  "run_each sys a fs w = (Inr recs, w') \<Longrightarrow> \<not> test_file a \<Longrightarrow>
   \<forall>r \<in> set recs. map_of r ''solved'' \<noteq> None"
proof (induction fs arbitrary: w recs)
  case Nil
  then show ?case by (simp add: return_def)
next
  case (Cons f fs)
  from Cons.prems(1) obtain r w1 rs where r: "solve_res_of sys a f w = (Inr r, w1)"
    and rs: "run_each sys a fs w1 = (Inr rs, w')" and recs: "recs = r # rs"
    by (auto simp: bindIO_def return_def split: prod.splits sum.splits)
  have "map_of r ''solved'' \<noteq> None"
    using r Cons.prems(2) solve_image_file by (auto simp: solve_res_of_def)
  then show ?case
    using Cons.IH [OF rs Cons.prems(2)] recs by simp
qed

text \<open>
  C9, as the code has it. When the loop completes, its result is the list of per-file
  records, made one after the other in input order, filtered by the inclusion policy:
  a record is kept when it is solved or when the verbosity count is at least two. In
  solver mode the records name the input files in order, and the loop completes
  whenever every file gives a record. What \<^verbatim>\<open>main\<close> writes is exactly that list.
\<close>

theorem batch_keeps_solved_in_order:
  "(main_loop sys a fs [] w = (Inr out, w') \<longrightarrow>
      (\<exists>recs. run_each sys a fs w = (Inr recs, w') \<and> out = filter (keep a) recs
             \<and> (\<not> test_file a \<longrightarrow> map (\<lambda>r. map_of r ''file'') recs = map (\<lambda>f. Some (PStr f)) fs)))
   \<and> (run_each sys a fs w = (Inr recs, w') \<and> \<not> test_file a \<longrightarrow>
        main_loop sys a fs [] w = (Inr (filter (keep a) recs), w'))
   \<and> (main sys a w = (Inr (), w'') \<longrightarrow>
        (\<exists>recs w'. run_each sys a (files a) w = (Inr recs, w')
           \<and> write_file (out_path a) (json_text sys (PList (map PDict (filter (keep a) recs)))) w'
               = (Inr (), w'')))
   \<and> (keep a r \<longleftrightarrow> solved_flag r \<or> 1 < verbose a)"
proof (intro conjI impI)
  assume m: "main_loop sys a fs [] w = (Inr out, w')"
  from main_loop_run_each [OF this] obtain recs where
    r: "run_each sys a fs w = (Inr recs, w')" "out = filter (keep a) recs" by auto
  then show "\<exists>recs. run_each sys a fs w = (Inr recs, w') \<and> out = filter (keep a) recs
             \<and> (\<not> test_file a \<longrightarrow> map (\<lambda>r. map_of r ''file'') recs = map (\<lambda>f. Some (PStr f)) fs)"
    using run_each_files [OF r(1)] by blast
next
  assume a: "run_each sys a fs w = (Inr recs, w') \<and> \<not> test_file a"
  have "\<forall>r \<in> set recs. map_of r ''solved'' \<noteq> None"
    using a run_each_solved by blast
  then show "main_loop sys a fs [] w = (Inr (filter (keep a) recs), w')"
    using run_each_main_loop [of sys a fs w recs w' "[]"] a by simp
next
  assume "main sys a w = (Inr (), w'')"
  then obtain out w' where m: "main_loop sys a (files a) [] w = (Inr out, w')"
    and wr: "write_file (out_path a) (json_text sys (PList (map PDict out))) w' = (Inr (), w'')"
    by (auto simp: main_def bindIO_def split: prod.splits sum.splits)
  from main_loop_run_each [OF m] wr
  show "\<exists>recs w'. run_each sys a (files a) w = (Inr recs, w')
           \<and> write_file (out_path a) (json_text sys (PList (map PDict (filter (keep a) recs)))) w'
               = (Inr (), w'')"
    by auto
next
  show "keep a r \<longleftrightarrow> solved_flag r \<or> 1 < verbose a" by (simp add: keep_def)
qed


lemma blank_dropped:
  "main_loop (scripted_os batch_script) (batch_args 1 [''blank.fits'']) [''blank.fits''] []
      small_world = (Inr [], small_world\<lparr>ticks := 2\<rparr>)"
  by (simp add: batch_eval)

lemma blank_record:
  "run_each (scripted_os batch_script) (batch_args 1 [''blank.fits'']) [''blank.fits'']
      small_world = (Inr [base_record ''blank.fits'' (Fin 1)], small_world\<lparr>ticks := 2\<rparr>)"
  by (simp add: batch_eval)

text \<open>
  C9 as stated fails at verbosity one: the run is verbose, the only file is not solved,
  its record exists and is not kept.
\<close>

theorem verbose_once_counterexample:
  "verbose (batch_args 1 [''blank.fits'']) = 1
   \<and> run_each (scripted_os batch_script) (batch_args 1 [''blank.fits'']) [''blank.fits'']
        small_world = (Inr [base_record ''blank.fits'' (Fin 1)], small_world\<lparr>ticks := 2\<rparr>)
   \<and> main_loop (scripted_os batch_script) (batch_args 1 [''blank.fits'']) [''blank.fits''] []
        small_world = (Inr [], small_world\<lparr>ticks := 2\<rparr>)"
  by (simp only: blank_dropped blank_record) (simp add: batch_args_def)

lemma two_files_loop:
  "main_loop (scripted_os batch_script) (batch_args 0 [''blank.fits'', ''m31.fits''])
      [''blank.fits'', ''m31.fits''] [] small_world
     = (Inr [polaris_record ''m31.fits''], small_world\<lparr>ticks := 4\<rparr>)"
  by (simp add: batch_eval polaris_record_def)

theorem batch_keeps_solved_in_order_witness:
  "main_loop (scripted_os batch_script) (batch_args 0 [''blank.fits'', ''m31.fits''])
      [''blank.fits'', ''m31.fits''] [] small_world
     = (Inr [polaris_record ''m31.fits''], small_world\<lparr>ticks := 4\<rparr>)
   \<and> \<not> test_file (batch_args 0 [''blank.fits'', ''m31.fits''])
   \<and> (\<exists>recs. run_each (scripted_os batch_script) (batch_args 0 [''blank.fits'', ''m31.fits''])
                [''blank.fits'', ''m31.fits''] small_world
                  = (Inr recs, small_world\<lparr>ticks := 4\<rparr>)
          \<and> [polaris_record ''m31.fits'']
               = filter (keep (batch_args 0 [''blank.fits'', ''m31.fits''])) recs
          \<and> map (\<lambda>r. map_of r ''file'') recs
               = map (\<lambda>f. Some (PStr f)) [''blank.fits'', ''m31.fits''])"
proof -
  have t: "\<not> test_file (batch_args 0 [''blank.fits'', ''m31.fits''])"
    by (simp add: batch_args_def)
  show ?thesis
    using batch_keeps_solved_in_order [of "scripted_os batch_script"
        "batch_args 0 [''blank.fits'', ''m31.fits'']" "[''blank.fits'', ''m31.fits'']"
        small_world "[polaris_record ''m31.fits'']" "small_world\<lparr>ticks := 4\<rparr>"]
      two_files_loop t
    by blast
qed

section \<open>The temporary directory (C5)\<close>

lemma unlink_cases:
  "unlink sys p w = (Inl OSError, w)
   \<or> (is_file (map_of (fsys w) p) \<and> \<not> removal_denied sys p
       \<and> unlink sys p w = (Inr (), w\<lparr>fsys := AList.delete p (fsys w)\<rparr>))"
  by (simp add: unlink_def)

lemma pass_unlink:
  "pass_OSError (unlink sys p) w =
     (Inr (), if is_file (map_of (fsys w) p) \<and> \<not> removal_denied sys p
              then w\<lparr>fsys := AList.delete p (fsys w)\<rparr> else w)"
  by (simp add: pass_OSError_def unlink_def)

lemma unlink_each_ok: "fst (unlink_each sys d ns w) = Inr ()"
  by (induction ns arbitrary: w) (simp_all add: return_def bindIO_def pass_unlink)

lemma unlink_each_effect:
  "(\<forall>k. map_of (fsys (snd (unlink_each sys d ns w))) k = map_of (fsys w) k
        \<or> (map_of (fsys (snd (unlink_each sys d ns w))) k = None \<and> is_file (map_of (fsys w) k)))
   \<and> (\<forall>f \<in> set ns. is_file (map_of (fsys w) (pjoin d f)) \<and> \<not> removal_denied sys (pjoin d f)
          \<longrightarrow> map_of (fsys (snd (unlink_each sys d ns w))) (pjoin d f) = None)"
proof (induction ns arbitrary: w)
  case Nil
  show ?case by (simp add: return_def)
next
  case (Cons f ns)
  let ?p = "pjoin d f"
  let ?w1 = "if is_file (map_of (fsys w) ?p) \<and> \<not> removal_denied sys ?p
              then w\<lparr>fsys := AList.delete ?p (fsys w)\<rparr> else w"
  have step: "unlink_each sys d (f # ns) w = unlink_each sys d ns ?w1"
    by (simp add: bindIO_def pass_unlink)
  have w1: "\<forall>k. map_of (fsys ?w1) k = map_of (fsys w) k
               \<or> (map_of (fsys ?w1) k = None \<and> is_file (map_of (fsys w) k))"
    by (auto simp: delete_conv')
  note ih = Cons.IH [of ?w1]
  have a: "\<forall>k. map_of (fsys (snd (unlink_each sys d ns ?w1))) k = map_of (fsys w) k
        \<or> (map_of (fsys (snd (unlink_each sys d ns ?w1))) k = None \<and> is_file (map_of (fsys w) k))"
  proof
    fix k
    from ih have "map_of (fsys (snd (unlink_each sys d ns ?w1))) k = map_of (fsys ?w1) k
        \<or> (map_of (fsys (snd (unlink_each sys d ns ?w1))) k = None \<and> is_file (map_of (fsys ?w1) k))"
      by blast
    with w1 show "map_of (fsys (snd (unlink_each sys d ns ?w1))) k = map_of (fsys w) k
        \<or> (map_of (fsys (snd (unlink_each sys d ns ?w1))) k = None \<and> is_file (map_of (fsys w) k))"
      by (metis is_file_def option.simps(4))
  qed
  have b: "map_of (fsys (snd (unlink_each sys d ns ?w1))) (pjoin d g) = None"
    if g: "g \<in> set (f # ns)"
      and ok: "is_file (map_of (fsys w) (pjoin d g)) \<and> \<not> removal_denied sys (pjoin d g)" for g
  proof (cases "map_of (fsys ?w1) (pjoin d g) = None")
    case True
    then show ?thesis using ih by metis
  next
    case False
    then have same: "map_of (fsys ?w1) (pjoin d g) = map_of (fsys w) (pjoin d g)"
      using w1 by metis
    have "pjoin d g \<noteq> ?p"
    proof
      assume "pjoin d g = ?p"
      then have "map_of (fsys ?w1) (pjoin d g) = None" using ok by (simp add: delete_conv')
      then show False using False by simp
    qed
    then have "g \<noteq> f" by auto
    then have "g \<in> set ns" using g by simp
    then show ?thesis using ih same ok by metis
  qed
  show ?case unfolding step using a b by blast
qed

lemma rmdir_cases:
  "rmdir sys p w = (Inl OSError, w)
   \<or> rmdir sys p w = (Inr (), w\<lparr>fsys := AList.delete p (fsys w)\<rparr>)"
  by (simp add: rmdir_def)

lemma prune_parents_only_deletes:
  "map_of (fsys w) k = None \<Longrightarrow> map_of (fsys (prune_parents sys ht w)) k = None"
proof (induction sys ht w rule: prune_parents.induct)
  case (1 sys head tail w)
  show ?case
  proof (cases "head \<noteq> [] \<and> tail \<noteq> []")
    case False
    then show ?thesis using "1.prems" by (auto simp: prune_parents.simps)
  next
    case True
    from rmdir_cases [of sys head w] show ?thesis
    proof
      assume "rmdir sys head w = (Inl OSError, w)"
      then show ?thesis using True "1.prems" by (simp add: prune_parents.simps)
    next
      assume r: "rmdir sys head w = (Inr (), w\<lparr>fsys := AList.delete head (fsys w)\<rparr>)"
      have "map_of (fsys (w\<lparr>fsys := AList.delete head (fsys w)\<rparr>)) k = None"
        using "1.prems" by (simp add: delete_conv')
      from "1.IH" [OF True r [symmetric] refl this] show ?thesis
        using True r by (simp add: prune_parents.simps)
    qed
  qed
qed

lemma removedirs_cases:
  "removedirs sys d w = (Inl OSError, w)
   \<or> (rmdir sys d w = (Inr (), w\<lparr>fsys := AList.delete d (fsys w)\<rparr>)
       \<and> (\<exists>ht. removedirs sys d w
                = (Inr (), prune_parents sys ht (w\<lparr>fsys := AList.delete d (fsys w)\<rparr>))))"
proof -
  from rmdir_cases [of sys d w] show ?thesis
  proof
    assume "rmdir sys d w = (Inl OSError, w)"
    then show ?thesis by (simp add: removedirs_def bindIO_def)
  next
    assume r: "rmdir sys d w = (Inr (), w\<lparr>fsys := AList.delete d (fsys w)\<rparr>)"
    let ?ht = "case path_split d of (head, tail) \<Rightarrow>
                 if tail = [] then path_split head else (head, tail)"
    have "removedirs sys d w
            = (Inr (), prune_parents sys ?ht (w\<lparr>fsys := AList.delete d (fsys w)\<rparr>))"
      using r by (simp add: removedirs_def bindIO_def Let_def split: prod.splits)
    then show ?thesis using r by blast
  qed
qed

lemma pass_removedirs_ok: "fst (pass_OSError (removedirs sys d) w) = Inr ()"
  using removedirs_cases [of sys d w] by (auto simp: pass_OSError_def)

lemma rm_rf_unfold:
  assumes "map_of (fsys w) d = Some Dir"
  shows "rm_rf sys d w =
           pass_OSError (removedirs sys d)
             (snd (unlink_each sys d
                (map (drop (length (dir_prefix d))) (filter (child d) (map fst (fsys w)))) w))"
proof -
  let ?ns = "map (drop (length (dir_prefix d))) (filter (child d) (map fst (fsys w)))"
  obtain w1 where "unlink_each sys d ?ns w = (Inr (), w1)"
    using unlink_each_ok [of sys d ?ns w] by (cases "unlink_each sys d ?ns w") auto
  then show ?thesis using assms by (simp add: rm_rf_def bindIO_def listdir_def)
qed

lemma rm_rf_no_dir:
  "map_of (fsys w) d \<noteq> Some Dir \<Longrightarrow> rm_rf sys d w = (Inl OSError, w)"
  by (simp add: rm_rf_def bindIO_def listdir_def)

lemma rm_rf_ok: "map_of (fsys w) d = Some Dir \<Longrightarrow> fst (rm_rf sys d w) = Inr ()"
  by (simp add: rm_rf_unfold pass_removedirs_ok)

lemma pjoin_child:
  assumes "d \<noteq> []" and "child d k"
  shows "pjoin d (drop (length (dir_prefix d)) k) = k"
proof -
  let ?f = "drop (length (dir_prefix d)) k"
  have b: "length (dir_prefix d) < length k" "take (length (dir_prefix d)) k = dir_prefix d"
    and s: "CHR ''/'' \<notin> set ?f"
    using assms(2) by (auto simp: child_def below_def)
  have "?f \<noteq> []" using b(1) by simp
  then have "hd ?f \<in> set ?f" by simp
  then have "hd ?f \<noteq> CHR ''/''" using s by metis
  then have "pjoin d ?f = dir_prefix d @ ?f"
    using assms(1) by (simp add: pjoin_def)
  also have "\<dots> = take (length (dir_prefix d)) k @ ?f" using b(2) by simp
  also have "\<dots> = k" by simp
  finally show ?thesis .
qed

lemma map_of_is_file:
  assumes "\<forall>(k, n) \<in> set f. P k \<longrightarrow> n \<noteq> Dir" and "P k" and "k \<in> fst ` set f"
  shows "is_file (map_of f k)"
proof -
  obtain n where n: "map_of f k = Some n"
    using assms(3) by (metis map_of_eq_None_iff not_None_eq)
  then have "(k, n) \<in> set f" by (rule map_of_SomeD)
  then have "n \<noteq> Dir" using assms(1,2) by auto
  then show ?thesis using n by (cases n) (simp_all add: is_file_def)
qed

lemma rm_rf_removes:
  assumes dir: "map_of (fsys w) d = Some Dir"
    and d: "d \<noteq> []"
    and rem: "removable_files sys d (fsys w)"
    and nd: "\<not> removal_denied sys d"
  shows "map_of (fsys (snd (rm_rf sys d w))) d = None
       \<and> (\<forall>k. below d k \<longrightarrow> map_of (fsys (snd (rm_rf sys d w))) k = None)"
proof -
  let ?ns = "map (drop (length (dir_prefix d))) (filter (child d) (map fst (fsys w)))"
  let ?w1 = "snd (unlink_each sys d ?ns w)"
  have all: "\<forall>(k, n) \<in> set (fsys w). below d k \<longrightarrow> child d k \<and> n \<noteq> Dir \<and> \<not> removal_denied sys k"
    using rem by (simp add: removable_files_def list_all_iff)
  note eff = unlink_each_effect [of sys d ?ns w]
  have gone: "map_of (fsys ?w1) k = None" if k: "below d k" for k
  proof (cases "k \<in> fst ` set (fsys w)")
    case False
    then have "map_of (fsys w) k = None" by (simp add: map_of_eq_None_iff)
    then show ?thesis using eff by metis
  next
    case True
    then obtain n where kn: "(k, n) \<in> set (fsys w)" by auto
    then have c: "child d k" and den: "\<not> removal_denied sys k" using all k by auto
    have "\<forall>(k, n) \<in> set (fsys w). below d k \<longrightarrow> n \<noteq> Dir" using all by auto
    from map_of_is_file [OF this k True] have f: "is_file (map_of (fsys w) k)" .
    have "drop (length (dir_prefix d)) k \<in> set ?ns" using True c by auto
    moreover have "pjoin d (drop (length (dir_prefix d)) k) = k" using pjoin_child [OF d c] .
    ultimately show ?thesis using eff f den by (metis (no_types, lifting))
  qed
  have keep: "map_of (fsys ?w1) d = Some Dir"
    using eff dir by (metis is_file_def node.simps(5) option.simps(5) option.distinct(1))
  have "\<not> list_ex (below d) (map fst (fsys ?w1))"
  proof
    assume "list_ex (below d) (map fst (fsys ?w1))"
    then obtain k where "k \<in> fst ` set (fsys ?w1)" "below d k" by (auto simp: list_ex_iff)
    then show False using gone by (metis map_of_eq_None_iff)
  qed
  then have r: "rmdir sys d ?w1 = (Inr (), ?w1\<lparr>fsys := AList.delete d (fsys ?w1)\<rparr>)"
    using keep nd by (simp add: rmdir_def)
  then have "removedirs sys d ?w1 \<noteq> (Inl OSError, ?w1)"
    by (simp add: removedirs_def bindIO_def split: prod.splits)
  then obtain ht where
    "removedirs sys d ?w1 = (Inr (), prune_parents sys ht (?w1\<lparr>fsys := AList.delete d (fsys ?w1)\<rparr>))"
    using removedirs_cases [of sys d ?w1] by blast
  then have res: "snd (rm_rf sys d w)
                    = prune_parents sys ht (?w1\<lparr>fsys := AList.delete d (fsys ?w1)\<rparr>)"
    by (simp add: rm_rf_unfold [OF dir] pass_OSError_def)
  have "map_of (fsys (?w1\<lparr>fsys := AList.delete d (fsys ?w1)\<rparr>)) d = None"
    by (simp add: delete_conv')
  moreover have "map_of (fsys (?w1\<lparr>fsys := AList.delete d (fsys ?w1)\<rparr>)) k = None"
    if "below d k" for k
    using gone [OF that] by (simp add: delete_conv')
  ultimately show ?thesis
    unfolding res using prune_parents_only_deletes by blast
qed

lemma mkdtemp_cases:
  assumes "mkdtemp sys w = (Inr wd, w1)"
  shows "\<exists>n. tmp_name sys (fsys w) = Some n \<and> n \<noteq> [] \<and> CHR ''/'' \<notin> set n
             \<and> wd = ''/tmp/astrometry_'' @ n
             \<and> w1 = w\<lparr>fsys := AList.update wd Dir (fsys w)\<rparr>"
  using assms
  by (auto simp: mkdtemp_def Let_def pjoin_def dir_prefix_def split: option.splits if_splits)

lemma solver_txt_path:
  assumes "n \<noteq> []" and "CHR ''/'' \<notin> set n"
  shows "pjoin (''/tmp/astrometry_'' @ n) ''solver.txt'' = ''/tmp/astrometry_'' @ n @ ''/solver.txt''"
    and "path_split (''/tmp/astrometry_'' @ n @ ''/solver.txt'')
           = (''/tmp/astrometry_'' @ n, ''solver.txt'')"
proof -
  obtain n' c where n: "n = n' @ [c]" using assms(1) by (cases n rule: rev_cases) auto
  then have c: "c \<noteq> CHR ''/''" using assms(2) by auto
  show "pjoin (''/tmp/astrometry_'' @ n) ''solver.txt'' = ''/tmp/astrometry_'' @ n @ ''/solver.txt''"
    using n c by (simp add: pjoin_def dir_prefix_def)
  show "path_split (''/tmp/astrometry_'' @ n @ ''/solver.txt'')
           = (''/tmp/astrometry_'' @ n, ''solver.txt'')"
    using n c by (simp add: path_split_def rstrip_slash_def Let_def)
qed

lemma write_file_cases:
  assumes "write_file p t w = (Inr (), w')"
  shows "map_of (fsys w) (fst (path_split p)) = Some Dir
       \<and> w' = w\<lparr>fsys := AList.update p (File t) (fsys w)\<rparr>"
  using assms by (auto simp: write_file_def split: if_splits)

lemma solve_image_keeps_temp:
  assumes "solve_image sys img True dbg kw w = (Inr rv, w')"
  shows "\<exists>n out f f'. tmp_name sys (fsys w) = Some n
           \<and> map_of (fsys w') (''/tmp/astrometry_'' @ n) = Some Dir
           \<and> map_of (fsys w') (''/tmp/astrometry_'' @ n @ ''/solver.txt'') = Some (File out)
           \<and> solve_field sys (solver_args_of (''/tmp/astrometry_'' @ n) kw img) f = Some (f', out)"
proof -
  obtain wd w1 where m: "mkdtemp sys w = (Inr wd, w1)"
    using assms by (auto simp: solve_image_def bindIO_def split: prod.splits sum.splits)
  from mkdtemp_cases [OF m] obtain n where
    n: "tmp_name sys (fsys w) = Some n" "n \<noteq> []" "CHR ''/'' \<notin> set n"
      "wd = ''/tmp/astrometry_'' @ n" by blast
  obtain f' out w4 where
    r: "solve_field sys (solver_args_of wd kw img) (fsys w1) = Some (f', out)"
    and wr: "write_file (pjoin wd ''solver.txt'') out w4 = (Inr (), w')"
    using assms m
    by (auto simp: solve_image_def bindIO_def return_def fits_header_of_def monotonic_def
          run_stdout_def split: prod.splits sum.splits option.splits)
  let ?p = "''/tmp/astrometry_'' @ n @ ''/solver.txt''"
  have p: "pjoin wd ''solver.txt'' = ?p" and sp: "fst (path_split ?p) = wd"
    using solver_txt_path [OF n(2,3)] n(4) by simp_all
  from write_file_cases [OF wr] have
    "map_of (fsys w4) wd = Some Dir" "w' = w4\<lparr>fsys := AList.update ?p (File out) (fsys w4)\<rparr>"
    using p sp by simp_all
  then have "map_of (fsys w') wd = Some Dir \<and> map_of (fsys w') ?p = Some (File out)"
    using n(4) by (simp add: update_conv')
  then show ?thesis using n r by blast
qed

lemma solve_image_cleanup:
  assumes "mkdtemp sys w = (Inr wd, w1)"
    and "solve_field sys (solver_args_of wd kw img) (fsys w1) = Some (f', out)"
    and "map_of f' wd = Some Dir"
  shows "solve_image sys img False dbg kw w =
           (solve_result img (monotonic_at sys (ticks w1)) (monotonic_at sys (Suc (ticks w1)))
              (case read_header sys img (fsys w1) of Some h \<Rightarrow> h | None \<Rightarrow> []) out,
            snd (rm_rf sys wd (w1\<lparr>fsys := f', ticks := Suc (Suc (ticks w1))\<rparr>)))"
proof -
  let ?w4 = "w1\<lparr>fsys := f', ticks := Suc (Suc (ticks w1))\<rparr>"
  have "fst (rm_rf sys wd ?w4) = Inr ()"
    using assms(3) by (intro rm_rf_ok) simp
  then obtain w5 where "rm_rf sys wd ?w4 = (Inr (), w5)"
    by (cases "rm_rf sys wd ?w4") auto
  then show ?thesis
    using assms(1,2)
    by (simp add: solve_image_def bindIO_def return_def fits_header_of_def monotonic_def
        run_stdout_def split: option.splits)
qed

text \<open>
  C5, as the code has it. \<^verbatim>\<open>rm_rf\<close> on an existing directory never raises: a removal
  that fails is passed over (only listing something that is not a directory raises).
  A directory that holds nothing but removable regular files is gone afterwards, with
  everything below it. \<^verbatim>\<open>solve_image\<close> without \<^verbatim>\<open>save_temps\<close> returns what the second
  half computes from the solver's output, whatever \<^verbatim>\<open>rm_rf\<close> managed to remove; with
  \<^verbatim>\<open>save_temps\<close>, a record is returned only after the output has been written to
  \<^verbatim>\<open>solver.txt\<close> in the temporary directory, which still exists.
\<close>

theorem rm_rf_best_effort:
  "(map_of (fsys w) d = Some Dir \<longrightarrow> fst (rm_rf sys d w) = Inr ())
   \<and> (map_of (fsys w) d \<noteq> Some Dir \<longrightarrow> rm_rf sys d w = (Inl OSError, w))
   \<and> (map_of (fsys w) d = Some Dir \<and> d \<noteq> [] \<and> removable_files sys d (fsys w)
        \<and> \<not> removal_denied sys d \<longrightarrow>
        map_of (fsys (snd (rm_rf sys d w))) d = None
        \<and> (\<forall>k. below d k \<longrightarrow> map_of (fsys (snd (rm_rf sys d w))) k = None))
   \<and> (mkdtemp sys w = (Inr wd, w1)
        \<and> solve_field sys (solver_args_of wd kw img) (fsys w1) = Some (f', out)
        \<and> map_of f' wd = Some Dir \<longrightarrow>
        solve_image sys img False dbg kw w =
           (solve_result img (monotonic_at sys (ticks w1)) (monotonic_at sys (Suc (ticks w1)))
              (case read_header sys img (fsys w1) of Some h \<Rightarrow> h | None \<Rightarrow> []) out,
            snd (rm_rf sys wd (w1\<lparr>fsys := f', ticks := Suc (Suc (ticks w1))\<rparr>))))
   \<and> (solve_image sys img True dbg kw w = (Inr rv, w') \<longrightarrow>
        (\<exists>n out f f'. tmp_name sys (fsys w) = Some n
           \<and> map_of (fsys w') (''/tmp/astrometry_'' @ n) = Some Dir
           \<and> map_of (fsys w') (''/tmp/astrometry_'' @ n @ ''/solver.txt'') = Some (File out)
           \<and> solve_field sys (solver_args_of (''/tmp/astrometry_'' @ n) kw img) f = Some (f', out)))"
  using rm_rf_ok [of w d sys] rm_rf_no_dir [of w d sys] rm_rf_removes [of w d sys]
    solve_image_cleanup [of sys w wd w1 kw img f' out dbg]
    solve_image_keeps_temp [of sys img dbg kw w rv w']
  by blast

lemma stubborn_solve_image:
  "solve_image stubborn_os ''m31.fits'' False False [(''guess_scale'', KwBool True)] small_world
   = (Inr (base_record ''m31.fits'' (Fin 1)),
      \<lparr>fsys = [(''/tmp'', Dir), (''/out'', Dir), (''/tmp/astrometry_x3k9q2ab'', Dir),
               (''/tmp/astrometry_x3k9q2ab/core'', File ''...'')], ticks = 2\<rparr>)"
  by (simp add: os_eval stubborn_os_def blank_result [of _ 0, simplified])

text \<open>
  C5 as stated fails: when the removal of a file in the temporary directory is refused,
  \<^verbatim>\<open>solve_image\<close> without \<^verbatim>\<open>save_temps\<close> returns normally and the directory still
  exists, with the file in it.
\<close>

theorem rm_rf_counterexample:
  "fst (solve_image stubborn_os ''m31.fits'' False False [(''guess_scale'', KwBool True)]
          small_world)
     = Inr (base_record ''m31.fits'' (Fin 1))
   \<and> map_of (fsys (snd (solve_image stubborn_os ''m31.fits'' False False
                         [(''guess_scale'', KwBool True)] small_world)))
        ''/tmp/astrometry_x3k9q2ab'' = Some Dir
   \<and> map_of (fsys (snd (solve_image stubborn_os ''m31.fits'' False False
                         [(''guess_scale'', KwBool True)] small_world)))
        ''/tmp/astrometry_x3k9q2ab/core'' = Some (File ''...'')"
  by (simp add: stubborn_solve_image)

lemma kept_solve_image:
  "solve_image (scripted_os batch_script) ''blank.fits'' True False [] small_world
   = (Inr (base_record ''blank.fits'' (Fin 1)),
      \<lparr>fsys = [(''/tmp'', Dir), (''/out'', Dir), (''/tmp/astrometry_x3k9q2ab'', Dir),
               (''/tmp/astrometry_x3k9q2ab/solver.txt'', File ''Did not solve\<newline>'')],
       ticks = 2\<rparr>)"
  by (simp add: os_eval batch_script_def blank_result [of _ 0, simplified])

theorem rm_rf_best_effort_witness:
  "map_of (fsys scratch_world) ''/tmp/astrometry_x3k9q2ab'' = Some Dir
   \<and> removable_files (scripted_os batch_script) ''/tmp/astrometry_x3k9q2ab'' (fsys scratch_world)
   \<and> fst (rm_rf (scripted_os batch_script) ''/tmp/astrometry_x3k9q2ab'' scratch_world) = Inr ()
   \<and> map_of (fsys (snd (rm_rf (scripted_os batch_script) ''/tmp/astrometry_x3k9q2ab''
                          scratch_world))) ''/tmp/astrometry_x3k9q2ab'' = None
   \<and> map_of (fsys (snd (rm_rf (scripted_os batch_script) ''/tmp/astrometry_x3k9q2ab''
                          scratch_world))) ''/tmp/astrometry_x3k9q2ab/m31.axy'' = None
   \<and> fst (solve_image (scripted_os batch_script) ''blank.fits'' True False [] small_world)
       = Inr (base_record ''blank.fits'' (Fin 1))
   \<and> (\<exists>n out. tmp_name (scripted_os batch_script) (fsys small_world) = Some n
         \<and> map_of (fsys (snd (solve_image (scripted_os batch_script) ''blank.fits'' True False []
                                small_world))) (''/tmp/astrometry_'' @ n) = Some Dir
         \<and> map_of (fsys (snd (solve_image (scripted_os batch_script) ''blank.fits'' True False []
                                small_world))) (''/tmp/astrometry_'' @ n @ ''/solver.txt'')
             = Some (File out))"
proof -
  let ?sys = "scripted_os batch_script"
  let ?d = "''/tmp/astrometry_x3k9q2ab''"
  have 1: "map_of (fsys scratch_world) ?d = Some Dir" by (simp add: scratch_world_def)
  have 2: "removable_files ?sys ?d (fsys scratch_world)"
    by (simp add: removable_files_def scratch_world_def below_def child_def dir_prefix_def
        scripted_os_def)
  have 3: "\<not> removal_denied ?sys ?d" by (simp add: scripted_os_def)
  have 4: "below ?d ''/tmp/astrometry_x3k9q2ab/m31.axy''"
    by (simp add: below_def dir_prefix_def)
  have 5: "?d \<noteq> []" by simp
  note t = rm_rf_best_effort [of scratch_world ?d ?sys]
  have a: "fst (rm_rf ?sys ?d scratch_world) = Inr ()" using t 1 by blast
  have b: "map_of (fsys (snd (rm_rf ?sys ?d scratch_world))) ?d = None
        \<and> map_of (fsys (snd (rm_rf ?sys ?d scratch_world))) ''/tmp/astrometry_x3k9q2ab/m31.axy'' = None"
    using t 1 2 3 4 5 by blast
  note k = kept_solve_image
  have c: "fst (solve_image ?sys ''blank.fits'' True False [] small_world)
             = Inr (base_record ''blank.fits'' (Fin 1))"
    by (simp only: k fst_conv)
  have "\<exists>n out f f'. tmp_name ?sys (fsys small_world) = Some n
           \<and> map_of (fsys (snd (solve_image ?sys ''blank.fits'' True False [] small_world)))
                (''/tmp/astrometry_'' @ n) = Some Dir
           \<and> map_of (fsys (snd (solve_image ?sys ''blank.fits'' True False [] small_world)))
                (''/tmp/astrometry_'' @ n @ ''/solver.txt'') = Some (File out)
           \<and> solve_field ?sys (solver_args_of (''/tmp/astrometry_'' @ n) [] ''blank.fits'') f
                = Some (f', out)"
    using rm_rf_best_effort [where sys = ?sys and img = "''blank.fits''" and dbg = False
        and kw = "[]" and w = small_world and rv = "base_record ''blank.fits'' (Fin 1)"
        and w' = "snd (solve_image ?sys ''blank.fits'' True False [] small_world)"] k
    by (metis snd_conv)
  then show ?thesis using 1 2 a b c by blast
qed

end
